theory Spec2Isabelle
  imports Main "HOL-Library.Word"
begin

text \<open>
  The controller of \<open>src/App.tsx\<close>: the session identifier kept in \<open>localStorage\<close>,
  the request \<open>postMove\<close>, the reward link \<open>buildTelegramLink\<close>, and the handlers
  \<open>resetGame\<close> and \<open>onCellClick\<close> of the component \<open>App\<close>. The state of the
  component is a record; a handler is a function from state to state; the \<open>await\<close> in
  \<open>onCellClick\<close> splits it in two, so that other events can come in between.
\<close>

section \<open>Strings\<close>

text \<open>
  A JavaScript string is a sequence of 16-bit code units (UTF-16). ASCII literals of the
  source are written with \<open>js\<close>.
\<close>

type_synonym jsstring = "16 word list"

definition js :: "string \<Rightarrow> jsstring" where
  "js s = map (\<lambda>c. word_of_nat (of_char c)) s"

section \<open>Data of \<open>App.tsx\<close>\<close>

text \<open>\<^verbatim>\<open>type Cell = 0 | 1 | 2; // 0 empty, 1 player X, 2 bot O\<close>\<close>

datatype Cell = Empty | PlayerX | BotO

text \<open>\<^verbatim>\<open>type GameStatus = "in_progress" | "win" | "lose" | "draw";\<close>\<close>

datatype GameStatus = in_progress | win | lose | draw

text \<open>
  \<^verbatim>\<open>type MoveResponse = { success; status; board; promoCode? }\<close>.
  The fields \<open>status\<close> and \<open>board\<close> carry the suffix \<open>_r\<close>, since the component's state
  has fields of the same names.
\<close>

record MoveResponse =
  success :: bool
  status_r :: GameStatus
  board_r :: "Cell list"
  promoCode :: "jsstring option"

text \<open>The body that \<open>postMove\<close> posts: \<^verbatim>\<open>JSON.stringify({ sessionId, board, cellIndex })\<close>.\<close>

record MoveRequest =
  sessionId_q :: jsstring
  board_q :: "Cell list"
  cellIndex :: nat

text \<open>
  The state of the component \<open>App\<close>: one field for each \<open>useState\<close> hook, under the
  hook's name.
\<close>

record App_state =
  sessionId :: jsstring
  board :: "Cell list"
  status :: GameStatus
  busy :: bool
  error :: "jsstring option"
  tgLink :: "jsstring option"

text \<open>\<^verbatim>\<open>const BOT_USERNAME = "ttt432_bot";\<close>\<close>

definition BOT_USERNAME :: jsstring where
  "BOT_USERNAME = js ''ttt432_bot''"

section \<open>Thrown values\<close>

text \<open>
  A value that is thrown, or that a promise rejects with, as far as the \<open>catch\<close> block of
  \<open>onCellClick\<close> reads it: its \<open>message\<close> property, \<open>None\<close> when the value has none.
\<close>

datatype thrown = Thrown (message: "jsstring option")

text \<open>
  The \<open>URIError\<close> of \<open>encodeURIComponent\<close>. ECMA-262 leaves the message text to the
  engine; this is V8's.
\<close>

definition URIError :: thrown where
  "URIError = Thrown (Some (js ''URI malformed''))"

section \<open>\<open>encodeURIComponent\<close> and \<open>decodeURIComponent\<close> (ECMA-262, 19.2.6)\<close>

text \<open>
  The code units that \<open>encodeURIComponent\<close> leaves as they are: ASCII letters, digits and
  \<^verbatim>\<open>- _ . ! ~ * ' ( )\<close>.
\<close>

definition uriUnescaped :: "16 word \<Rightarrow> bool" where
  "uriUnescaped c =
     (let n = unat c in
        (0x41 \<le> n \<and> n \<le> 0x5A) \<or> (0x61 \<le> n \<and> n \<le> 0x7A) \<or> (0x30 \<le> n \<and> n \<le> 0x39) \<or>
        n \<in> {0x2D, 0x5F, 0x2E, 0x21, 0x7E, 0x2A, 0x27, 0x28, 0x29})"

definition is_lead_surrogate :: "16 word \<Rightarrow> bool" where
  "is_lead_surrogate c = (0xD800 \<le> unat c \<and> unat c \<le> 0xDBFF)"

definition is_trail_surrogate :: "16 word \<Rightarrow> bool" where
  "is_trail_surrogate c = (0xDC00 \<le> unat c \<and> unat c \<le> 0xDFFF)"

text \<open>\<open>UTF16SurrogatePairToCodePoint\<close>\<close>

definition UTF16SurrogatePairToCodePoint :: "16 word \<Rightarrow> 16 word \<Rightarrow> nat" where
  "UTF16SurrogatePairToCodePoint ld tr =
     (unat ld - 0xD800) * 0x400 + (unat tr - 0xDC00) + 0x10000"

text \<open>\<open>UTF16EncodeCodePoint\<close>\<close>

definition UTF16EncodeCodePoint :: "nat \<Rightarrow> jsstring" where
  "UTF16EncodeCodePoint cp =
     (if cp \<le> 0xFFFF then [word_of_nat cp]
      else [word_of_nat ((cp - 0x10000) div 0x400 + 0xD800),
            word_of_nat ((cp - 0x10000) mod 0x400 + 0xDC00)])"

text \<open>The UTF-8 octets of a code point.\<close>

definition utf8_octets :: "nat \<Rightarrow> nat list" where
  "utf8_octets cp =
     (if cp < 0x80 then [cp]
      else if cp < 0x800 then [0xC0 + cp div 0x40, 0x80 + cp mod 0x40]
      else if cp < 0x10000 then
        [0xE0 + cp div 0x1000, 0x80 + cp div 0x40 mod 0x40, 0x80 + cp mod 0x40]
      else
        [0xF0 + cp div 0x40000, 0x80 + cp div 0x1000 mod 0x40,
         0x80 + cp div 0x40 mod 0x40, 0x80 + cp mod 0x40])"

text \<open>An upper-case hexadecimal digit, and an octet as \<^verbatim>\<open>%XX\<close>.\<close>

definition hex_digit :: "nat \<Rightarrow> 16 word" where
  "hex_digit n = word_of_nat (if n < 10 then 0x30 + n else 0x41 + (n - 10))"

definition escape_octet :: "nat \<Rightarrow> jsstring" where
  "escape_octet b = [0x25, hex_digit (b div 16), hex_digit (b mod 16)]"

definition escape_code_point :: "nat \<Rightarrow> jsstring" where
  "escape_code_point cp = concat (map escape_octet (utf8_octets cp))"

text \<open>
  \<open>Encode\<close> with the unescaped set of \<open>encodeURIComponent\<close>. A surrogate that is not
  part of a pair (\<open>CodePointAt\<close> reports it as unpaired) throws a \<open>URIError\<close>.
\<close>

fun encodeURIComponent :: "jsstring \<Rightarrow> thrown + jsstring" where
  "encodeURIComponent [] = Inr []"
| "encodeURIComponent (c # cs) =
     (if uriUnescaped c then map_sum id ((#) c) (encodeURIComponent cs)
      else if is_trail_surrogate c then Inl URIError
      else if is_lead_surrogate c then
        (case cs of
           [] \<Rightarrow> Inl URIError
         | d # ds \<Rightarrow>
             if is_trail_surrogate d
             then map_sum id ((@) (escape_code_point (UTF16SurrogatePairToCodePoint c d)))
                    (encodeURIComponent ds)
             else Inl URIError)
      else map_sum id ((@) (escape_code_point (unat c))) (encodeURIComponent cs))"

text \<open>
  A string with no unpaired surrogate (\<open>IsStringWellFormedUnicode\<close>).
\<close>

fun well_formed_utf16 :: "jsstring \<Rightarrow> bool" where
  "well_formed_utf16 [] = True"
| "well_formed_utf16 (c # cs) =
     (if is_trail_surrogate c then False
      else if is_lead_surrogate c then
        (case cs of [] \<Rightarrow> False | d # ds \<Rightarrow> is_trail_surrogate d \<and> well_formed_utf16 ds)
      else well_formed_utf16 cs)"

text \<open>The value of a hexadecimal digit of either case.\<close>

definition hex_value :: "16 word \<Rightarrow> nat option" where
  "hex_value c =
     (let n = unat c in
        if 0x30 \<le> n \<and> n \<le> 0x39 then Some (n - 0x30)
        else if 0x41 \<le> n \<and> n \<le> 0x46 then Some (n - 0x41 + 10)
        else if 0x61 \<le> n \<and> n \<le> 0x66 then Some (n - 0x61 + 10)
        else None)"

text \<open>
  An escape \<^verbatim>\<open>%XX\<close> at the head of a string: its octet (\<open>ParseHexOctet\<close>) and the rest.
\<close>

fun read_escape :: "jsstring \<Rightarrow> (nat \<times> jsstring) option" where
  "read_escape (p # h # l # rest) =
     (if p = 0x25 then
        (case (hex_value h, hex_value l) of
           (Some a, Some b) \<Rightarrow> Some (16 * a + b, rest)
         | _ \<Rightarrow> None)
      else None)"
| "read_escape _ = None"

text \<open>The \<open>j\<close> continuation escapes that follow the first octet of a sequence.\<close>

fun read_continuations :: "nat \<Rightarrow> jsstring \<Rightarrow> (nat list \<times> jsstring) option" where
  "read_continuations 0 s = Some ([], s)"
| "read_continuations (Suc j) s =
     (case read_escape s of
        None \<Rightarrow> None
      | Some (b, s') \<Rightarrow>
          (case read_continuations j s' of
             None \<Rightarrow> None
           | Some (bs, s'') \<Rightarrow> Some (b # bs, s'')))"

text \<open>The number of leading 1 bits of an octet.\<close>

definition leading_ones :: "nat \<Rightarrow> nat" where
  "leading_ones b =
     (if b < 0x80 then 0 else if b < 0xC0 then 1 else if b < 0xE0 then 2
      else if b < 0xF0 then 3 else if b < 0xF8 then 4 else 5)"

definition is_continuation :: "nat \<Rightarrow> bool" where
  "is_continuation b = (0x80 \<le> b \<and> b < 0xC0)"

text \<open>
  The code point of a list of octets that is the UTF-8 encoding of one code point:
  no overlong form, no surrogate, nothing above \<open>0x10FFFF\<close>.
\<close>

fun utf8_code_point :: "nat list \<Rightarrow> nat option" where
  "utf8_code_point [b0, b1] =
     (let v = (b0 - 0xC0) * 0x40 + (b1 - 0x80)
      in if 0xC0 \<le> b0 \<and> b0 < 0xE0 \<and> is_continuation b1 \<and> 0x80 \<le> v then Some v else None)"
| "utf8_code_point [b0, b1, b2] =
     (let v = (b0 - 0xE0) * 0x1000 + (b1 - 0x80) * 0x40 + (b2 - 0x80)
      in if 0xE0 \<le> b0 \<and> b0 < 0xF0 \<and> is_continuation b1 \<and> is_continuation b2 \<and>
            0x800 \<le> v \<and> \<not> (0xD800 \<le> v \<and> v \<le> 0xDFFF)
         then Some v else None)"
| "utf8_code_point [b0, b1, b2, b3] =
     (let v = (b0 - 0xF0) * 0x40000 + (b1 - 0x80) * 0x1000 + (b2 - 0x80) * 0x40 + (b3 - 0x80)
      in if 0xF0 \<le> b0 \<and> b0 < 0xF8 \<and> is_continuation b1 \<and> is_continuation b2 \<and>
            is_continuation b3 \<and> 0x10000 \<le> v \<and> v \<le> 0x10FFFF
         then Some v else None)"
| "utf8_code_point _ = None"

text \<open>\<open>Decode\<close> with the empty set of preserved escapes.\<close>

function decodeURIComponent :: "jsstring \<Rightarrow> thrown + jsstring" where
  "decodeURIComponent [] = Inr []"
| "decodeURIComponent (c # cs) =
     (if c \<noteq> 0x25 then map_sum id ((#) c) (decodeURIComponent cs)
      else
        (case read_escape (c # cs) of
           None \<Rightarrow> Inl URIError
         | Some (b, rest) \<Rightarrow>
             (let n = leading_ones b in
                if n = 0 then map_sum id ((#) (word_of_nat b)) (decodeURIComponent rest)
                else if n = 1 \<or> 4 < n then Inl URIError
                else
                  (case read_continuations (n - 1) rest of
                     None \<Rightarrow> Inl URIError
                   | Some (octets, rest') \<Rightarrow>
                       (case utf8_code_point (b # octets) of
                          None \<Rightarrow> Inl URIError
                        | Some v \<Rightarrow>
                            map_sum id ((@) (UTF16EncodeCodePoint v))
                              (decodeURIComponent rest'))))))"
  by pat_completeness auto
termination
proof -
  have esc: "length r < length s" if "read_escape s = Some (b, r)" for s b r
    using that
    by (cases s rule: read_escape.cases) (auto split: if_splits option.splits)
  have conts: "length r \<le> length s" if "read_continuations j s = Some (bs, r)" for j s bs r
    using that
  proof (induction j arbitrary: s bs)
    case 0
    then show ?case by simp
  next
    case (Suc j)
    then show ?case
      by (fastforce split: option.splits dest: esc)
  qed
  show ?thesis
  proof (relation "measure length")
    show "wf (measure length)" by simp
  next
    fix c :: "16 word" and cs :: jsstring
    show "(cs, c # cs) \<in> measure length" by simp
  next
    fix c :: "16 word" and cs x b rest
    assume "read_escape (c # cs) = Some x" "(b, rest) = x"
    then show "(rest, c # cs) \<in> measure length"
      using esc [of "c # cs" b rest] by simp
  next
    fix c :: "16 word" and cs x b rest y octets rest' and n :: nat
    assume "read_escape (c # cs) = Some x" "(b, rest) = x"
      "n = leading_ones b"
      "read_continuations (n - 1) rest = Some y" "(octets, rest') = y"
    then show "(rest', c # cs) \<in> measure length"
      using esc [of "c # cs" b rest] conts [of "n - 1" rest octets rest']
      by simp
  qed
qed

declare decodeURIComponent.simps [simp del]

text \<open>
  \<^verbatim>\<open>`https://t.me/${BOT_USERNAME}?start=${encodeURIComponent(sid)}`\<close>: the function throws
  what \<open>encodeURIComponent\<close> throws.
\<close>

definition buildTelegramLink :: "jsstring \<Rightarrow> thrown + jsstring" where
  "buildTelegramLink sid =
     map_sum id (\<lambda>e. js ''https://t.me/'' @ BOT_USERNAME @ js ''?start='' @ e)
       (encodeURIComponent sid)"


section \<open>The controller\<close>

text \<open>\<^verbatim>\<open>Array.from({ length: 9 }, () => 0)\<close>\<close>

definition EmptyBoard :: "Cell list" where
  "EmptyBoard = replicate 9 Empty"

text \<open>\<^verbatim>\<open>status === "in_progress" && !busy\<close>\<close>

definition canPlay :: "App_state \<Rightarrow> bool" where
  "canPlay s = (status s = in_progress \<and> \<not> busy s)"

definition resetGame :: "App_state \<Rightarrow> App_state" where
  "resetGame s = s\<lparr>board := EmptyBoard, status := in_progress, error := None, tgLink := None\<rparr>"

text \<open>
  \<open>board[i] !== 0\<close> of the source: an index past the end reads \<open>undefined\<close>, which is not
  \<open>0\<close>, so the handler returns there as well.
\<close>

definition cell_is_empty :: "Cell list \<Rightarrow> nat \<Rightarrow> bool" where
  "cell_is_empty b i = (i < length b \<and> b ! i = Empty)"

text \<open>
  \<open>onCellClick\<close> up to its \<open>await\<close>: the two guards, then \<open>setError(null)\<close>,
  \<open>setBusy(true)\<close> and the call of \<open>postMove(sessionId, board, i)\<close>. The result is the
  new state and the list of requests handed to the transport.
\<close>

definition onCellClick_begin :: "App_state \<Rightarrow> nat \<Rightarrow> App_state \<times> MoveRequest list" where
  "onCellClick_begin s i =
     (if \<not> canPlay s then (s, [])
      else if \<not> cell_is_empty (board s) i then (s, [])
      else (s\<lparr>error := None, busy := True\<rparr>,
            [\<lparr>sessionId_q = sessionId s, board_q = board s, cellIndex = i\<rparr>]))"

section \<open>Session identity\<close>

text \<open>\<open>localStorage\<close>: a map from keys to values, both strings.\<close>

type_synonym storage = "jsstring \<rightharpoonup> jsstring"

text \<open>
  \<open>getOrCreateSessionId\<close>. The result of \<open>crypto.randomUUID()\<close> is the argument
  \<open>uuid\<close>; the function returns the identifier and the storage it leaves.
  \<open>existing && existing.length > 0\<close> is false for \<open>null\<close> and for the empty string.
\<close>

definition getOrCreateSessionId :: "storage \<Rightarrow> jsstring \<Rightarrow> jsstring \<times> storage" where
  "getOrCreateSessionId localStorage uuid =
     (let key = js ''ttt_session_id'';
          id = js ''s_'' @ uuid;
          created = (id, localStorage(key \<mapsto> id))
      in case localStorage key of
           None \<Rightarrow> created
         | Some existing \<Rightarrow>
             if existing \<noteq> [] \<and> 0 < length existing then (existing, localStorage)
             else created)"

text \<open>\<open>localStorage.clear()\<close>\<close>

definition Storage_clear :: "storage \<Rightarrow> storage" where
  "Storage_clear localStorage = Map.empty"

section \<open>\<open>postMove\<close>\<close>

text \<open>
  What the network gives back to \<open>postMove\<close>:
  \<^item> \<open>fetch\<close> rejects (no response at all);
  \<^item> a response with \<open>res.ok\<close> false, its \<open>res.status\<close>, and the \<open>message\<close> property of
    the body that \<open>res.json()\<close> yields, or \<open>None\<close> when \<open>res.json()\<close> rejects and \<open>body\<close>
    stays \<open>null\<close>;
  \<^item> a response with \<open>res.ok\<close> true, and what \<open>res.json()\<close> does: it rejects, or yields
    a \<open>MoveResponse\<close>.
\<close>

datatype json_message = NoMessage | MessageString jsstring | MessageArray "jsstring list"

datatype 'a json_result = JsonRejected thrown | Json 'a

datatype fetch_result =
    FetchRejected thrown
  | NotOk nat "json_message option"
  | Ok "MoveResponse json_result"

text \<open>The decimal digits of a number: \<open>res.status\<close> inside a template literal.\<close>

fun Number_toString :: "nat \<Rightarrow> jsstring" where
  "Number_toString n =
     (if n < 10 then [word_of_nat (0x30 + n)]
      else Number_toString (n div 10) @ [word_of_nat (0x30 + n mod 10)])"

declare Number_toString.simps [simp del]

text \<open>\<open>Array.prototype.join\<close> on an array of strings.\<close>

fun join :: "jsstring list \<Rightarrow> jsstring \<Rightarrow> jsstring" where
  "join [] sep = []"
| "join [x] sep = x"
| "join (x # y # ys) sep = x @ sep @ join (y # ys) sep"

text \<open>
  The left operand of \<open>||\<close> is taken when it is truthy: \<open>undefined\<close> and the empty string
  are not, an array is, also the empty one.
\<close>

fun truthy :: "json_message \<Rightarrow> bool" where
  "truthy NoMessage = False"
| "truthy (MessageString m) = (m \<noteq> [])"
| "truthy (MessageArray ms) = True"

text \<open>
  \<open>postMove\<close>, as a function of what the network gives back: the \<open>MoveResponse\<close>, or the
  value thrown. On a response that is not ok:
  \<^verbatim>\<open>const msg = body?.message || `HTTP ${res.status}`;\<close>
  \<^verbatim>\<open>throw new Error(Array.isArray(msg) ? msg.join(", ") : msg);\<close>
\<close>

text \<open>
  (\<open>msg\<close> is never \<open>NoMessage\<close>: a message that is not truthy has been replaced.)
\<close>

definition postMove :: "fetch_result \<Rightarrow> thrown + MoveResponse" where
  "postMove res =
     (case res of
        FetchRejected e \<Rightarrow> Inl e
      | NotOk st body \<Rightarrow>
          (let message = (case body of None \<Rightarrow> NoMessage | Some m \<Rightarrow> m);
               msg = (if truthy message then message
                      else MessageString (js ''HTTP '' @ Number_toString st))
           in Inl (Thrown (Some
                (case msg of
                   MessageArray ms \<Rightarrow> join ms (js '', '')
                 | MessageString m \<Rightarrow> m
                 | NoMessage \<Rightarrow> []))))
      | Ok (JsonRejected e) \<Rightarrow> Inl e
      | Ok (Json r) \<Rightarrow> Inr r)"

section \<open>\<open>onCellClick\<close> after its \<open>await\<close>\<close>

text \<open>The literal of the \<open>catch\<close> block, fourteen Cyrillic code units.\<close>

definition request_error_text :: jsstring where
  "request_error_text =
     [0x41E, 0x448, 0x438, 0x431, 0x43A, 0x430, 0x20,
      0x437, 0x430, 0x43F, 0x440, 0x43E, 0x441, 0x430]"

text \<open>\<^verbatim>\<open>e?.message ?? "..."\<close>\<close>

definition catch_message :: "thrown \<Rightarrow> jsstring" where
  "catch_message e = (case message e of Some m \<Rightarrow> m | None \<Rightarrow> request_error_text)"

text \<open>
  The rest of \<open>onCellClick\<close>, run when the promise of \<open>postMove\<close> settles: \<open>sid\<close> is the
  \<open>sessionId\<close> that the handler closed over, \<open>s\<close> the state at that moment, \<open>r\<close> what
  \<open>postMove\<close> returned or threw. A throw of \<open>buildTelegramLink\<close> is inside the \<open>try\<close>
  as well, after \<open>setBoard\<close> and \<open>setStatus\<close>. \<open>setBusy(false)\<close> is the \<open>finally\<close>.
  There is no \<open>await\<close> between these setters: React batches them, and the component
  goes from \<open>s\<close> to the result in one transition.
\<close>

definition onCellClick_resume :: "jsstring \<Rightarrow> App_state \<Rightarrow> thrown + MoveResponse \<Rightarrow> App_state" where
  "onCellClick_resume sid s r =
     (let s' =
        (case r of
           Inr res \<Rightarrow>
             (let s1 = s\<lparr>board := board_r res, status := status_r res\<rparr>
              in if status_r res = win then
                   (case buildTelegramLink sid of
                      Inr link \<Rightarrow> s1\<lparr>tgLink := Some link\<rparr>
                    | Inl e \<Rightarrow> s1\<lparr>error := Some (catch_message e)\<rparr>)
                 else s1)
         | Inl e \<Rightarrow> s\<lparr>error := Some (catch_message e)\<rparr>)
      in s'\<lparr>busy := False\<rparr>)"

text \<open>
  One call of \<open>onCellClick\<close> from the click to the end, nothing else happening while the
  request is awaited.
\<close>

definition onCellClick :: "App_state \<Rightarrow> nat \<Rightarrow> fetch_result \<Rightarrow> App_state" where
  "onCellClick s i net =
     (case onCellClick_begin s i of
        (s', []) \<Rightarrow> s'
      | (s', req # _) \<Rightarrow> onCellClick_resume (sessionId_q req) s' (postMove net))"

section \<open>The component in time\<close>

text \<open>
  The initial values of the \<open>useState\<close> hooks, and the state once the effect
  \<open>setSessionId(getOrCreateSessionId())\<close> has run after the first render.
\<close>

definition App_initial :: App_state where
  "App_initial =
     \<lparr>sessionId = [], board = EmptyBoard, status = in_progress, busy = False,
      error = None, tgLink = None\<rparr>"

definition App_mounted :: "storage \<Rightarrow> jsstring \<Rightarrow> App_state" where
  "App_mounted localStorage uuid =
     App_initial\<lparr>sessionId := fst (getOrCreateSessionId localStorage uuid)\<rparr>"

text \<open>
  What can happen to the mounted component: a click on a cell, a click on a reset
  button, the modal being closed (\<open>setTgLink(null)\<close>), and the settling of the \<open>k\<close>-th
  call of \<open>postMove\<close> that is in flight. The component together with the calls in flight,
  each with the request it sent, is a \<open>runtime\<close>.

  \<open>step\<close> judges a click on the state at that moment: it takes the component as
  rendered anew after every event, which is what React does between two events of the
  user. The handler itself reads \<open>canPlay\<close>, \<open>board\<close> and \<open>sessionId\<close> of its render; two
  clicks dispatched with no render between them would both read the same snapshot, and
  \<open>step\<close> does not cover that.
\<close>

datatype event = Click nat | Reset | CloseModal | Settle nat fetch_result

record runtime =
  app :: App_state
  in_flight :: "MoveRequest list"

definition remove_nth :: "nat \<Rightarrow> 'a list \<Rightarrow> 'a list" where
  "remove_nth k xs = take k xs @ drop (Suc k) xs"

fun step :: "runtime \<Rightarrow> event \<Rightarrow> runtime" where
  "step \<sigma> (Click i) =
     (case onCellClick_begin (app \<sigma>) i of
        (s', reqs) \<Rightarrow> \<sigma>\<lparr>app := s', in_flight := in_flight \<sigma> @ reqs\<rparr>)"
| "step \<sigma> Reset = \<sigma>\<lparr>app := resetGame (app \<sigma>)\<rparr>"
| "step \<sigma> CloseModal = \<sigma>\<lparr>app := (app \<sigma>)\<lparr>tgLink := None\<rparr>\<rparr>"
| "step \<sigma> (Settle k net) =
     (if k < length (in_flight \<sigma>)
      then \<sigma>\<lparr>app := onCellClick_resume (sessionId_q (in_flight \<sigma> ! k)) (app \<sigma>) (postMove net),
             in_flight := remove_nth k (in_flight \<sigma>)\<rparr>
      else \<sigma>)"

definition run :: "event list \<Rightarrow> runtime \<Rightarrow> runtime" where
  "run evs \<sigma> = foldl step \<sigma> evs"

definition started :: "storage \<Rightarrow> jsstring \<Rightarrow> runtime" where
  "started localStorage uuid = \<lparr>app = App_mounted localStorage uuid, in_flight = []\<rparr>"

text \<open>
  A property of \<open>step\<close>, that is, of a component rendered anew after every event: the
  busy flag is set exactly while a call is in flight, there is never more than one, and
  its request carries the session identifier of the component.
\<close>

definition one_in_flight :: "runtime \<Rightarrow> bool" where
  "one_in_flight \<sigma> =
     (length (in_flight \<sigma>) \<le> 1 \<and> (busy (app \<sigma>) = (in_flight \<sigma> \<noteq> [])) \<and>
      list_all (\<lambda>q. sessionId_q q = sessionId (app \<sigma>)) (in_flight \<sigma>))"

text \<open>
  An event that applies no response board of a length other than 9: every event but
  the settling of a request with a response whose board has another length.
\<close>

fun well_sized :: "event \<Rightarrow> bool" where
  "well_sized (Settle k (Ok (Json r))) = (length (board_r r) = 9)"
| "well_sized _ = True"

section \<open>Reset\<close>

text \<open>
  C4. From any state, \<open>resetGame\<close> yields a board of nine empty cells, the status
  \<open>in_progress\<close>, no error and no reward link.
\<close>

theorem resetGame_yields_fresh_game:
  "board (resetGame s) = replicate 9 Empty \<and> length (board (resetGame s)) = 9 \<and>
   status (resetGame s) = in_progress \<and> error (resetGame s) = None \<and>
   tgLink (resetGame s) = None"
  by (simp add: resetGame_def EmptyBoard_def)

text \<open>
  C10. \<open>resetGame\<close> writes the board, the status, the error and the reward link only: the
  session identifier and the busy flag are the ones of the state before, so a reset
  while a request is in flight leaves \<open>busy\<close> true.
\<close>

theorem resetGame_frame:
  "sessionId (resetGame s) = sessionId s \<and> busy (resetGame s) = busy s \<and>
   resetGame s = s\<lparr>board := board (resetGame s), status := status (resetGame s),
                   error := error (resetGame s), tgLink := tgLink (resetGame s)\<rparr>"
  by (simp add: resetGame_def)

section \<open>The guard of a move\<close>

text \<open>
  C3. A click on cell \<open>i\<close> issues a request exactly when the status is \<open>in_progress\<close>,
  no request is awaited and cell \<open>i\<close> of the board is empty; it is then the single
  request carrying the session identifier, the current board and \<open>cellIndex = i\<close>. When
  a guard fails nothing is issued and the state, the error included, is the one before.
\<close>

theorem onCellClick_guard:
  "(snd (onCellClick_begin s i) \<noteq> []) =
     (status s = in_progress \<and> \<not> busy s \<and> i < length (board s) \<and> board s ! i = Empty) \<and>
   (snd (onCellClick_begin s i) \<noteq> [] \<longrightarrow>
      snd (onCellClick_begin s i) =
        [\<lparr>sessionId_q = sessionId s, board_q = board s, cellIndex = i\<rparr>]) \<and>
   (snd (onCellClick_begin s i) = [] \<longrightarrow> fst (onCellClick_begin s i) = s)"
  by (simp add: onCellClick_begin_def canPlay_def cell_is_empty_def)

theorem onCellClick_guard_witness:
  "snd (onCellClick_begin
          \<lparr>sessionId = js ''S'', board = replicate 9 Empty, status = in_progress, busy = False,
           error = None, tgLink = None\<rparr> 4) =
     [\<lparr>sessionId_q = js ''S'', board_q = replicate 9 Empty, cellIndex = 4\<rparr>] \<and>
   fst (onCellClick_begin
          \<lparr>sessionId = js ''S'', board = replicate 9 Empty, status = in_progress, busy = True,
           error = None, tgLink = None\<rparr> 4) =
     \<lparr>sessionId = js ''S'', board = replicate 9 Empty, status = in_progress, busy = True,
      error = None, tgLink = None\<rparr>"
  using
    onCellClick_guard [of "\<lparr>sessionId = js ''S'', board = replicate 9 Empty,
      status = in_progress, busy = False, error = None, tgLink = None\<rparr>" 4]
    onCellClick_guard [of "\<lparr>sessionId = js ''S'', board = replicate 9 Empty,
      status = in_progress, busy = True, error = None, tgLink = None\<rparr>" 4]
  by simp

section \<open>Percent-encoding: decoding what was encoded\<close>

lemma unat_word_of_nat_16: "n < 65536 \<Longrightarrow> unat (word_of_nat n :: 16 word) = n"
  by (simp add: unat_of_nat)

lemma hex_value_hex_digit: "n < 16 \<Longrightarrow> hex_value (hex_digit n) = Some n"
  by (auto simp: hex_value_def hex_digit_def Let_def unat_word_of_nat_16)

lemma read_escape_escape_octet:
  "b < 256 \<Longrightarrow> read_escape (escape_octet b @ rest) = Some (b, rest)"
proof -
  assume "b < 256"
  then have "b div 16 < 16" "b mod 16 < 16" by simp_all
  then show ?thesis
    by (simp add: escape_octet_def hex_value_hex_digit)
qed

lemma decode_plain:
  "c \<noteq> 0x25 \<Longrightarrow> decodeURIComponent (c # cs) = map_sum id ((#) c) (decodeURIComponent cs)"
  by (simp add: decodeURIComponent.simps)

lemma decode_escape:
  "decodeURIComponent (escape_octet b @ rest) =
     (case read_escape (escape_octet b @ rest) of
           None \<Rightarrow> Inl URIError
         | Some (b, rest) \<Rightarrow>
             (let n = leading_ones b in
                if n = 0 then map_sum id ((#) (word_of_nat b)) (decodeURIComponent rest)
                else if n = 1 \<or> 4 < n then Inl URIError
                else
                  (case read_continuations (n - 1) rest of
                     None \<Rightarrow> Inl URIError
                   | Some (octets, rest') \<Rightarrow>
                       (case utf8_code_point (b # octets) of
                          None \<Rightarrow> Inl URIError
                        | Some v \<Rightarrow>
                            map_sum id ((@) (UTF16EncodeCodePoint v))
                              (decodeURIComponent rest')))))"
  by (simp add: escape_octet_def decodeURIComponent.simps)

lemma decode_ascii:
  assumes "cp < 0x80"
  shows "decodeURIComponent (escape_code_point cp @ rest) =
    map_sum id ((#) (word_of_nat cp)) (decodeURIComponent rest)"
proof -
  have "escape_code_point cp = escape_octet cp"
    using assms by (simp add: escape_code_point_def utf8_octets_def)
  moreover have "read_escape (escape_octet cp @ rest) = Some (cp, rest)"
    using assms by (simp add: read_escape_escape_octet)
  moreover have "leading_ones cp = 0" using assms by (simp add: leading_ones_def)
  ultimately show ?thesis by (simp add: decode_escape)
qed

lemma read_continuations_escapes:
  "\<forall>b\<in>set bs. b < 256 \<Longrightarrow>
   read_continuations (length bs) (concat (map escape_octet bs) @ rest) = Some (bs, rest)"
  by (induction bs) (simp_all add: read_escape_escape_octet)

lemma decode_sequence:
  assumes "b0 < 256" and "\<forall>b\<in>set bs. b < 256"
    and "leading_ones b0 = Suc (length bs)" and "bs \<noteq> []" and "length bs \<le> 3"
    and "utf8_code_point (b0 # bs) = Some v"
  shows "decodeURIComponent (concat (map escape_octet (b0 # bs)) @ rest) =
    map_sum id ((@) (UTF16EncodeCodePoint v)) (decodeURIComponent rest)"
proof -
  have "read_escape (escape_octet b0 @ concat (map escape_octet bs) @ rest) =
      Some (b0, concat (map escape_octet bs) @ rest)"
    using assms(1) by (rule read_escape_escape_octet)
  moreover have "read_continuations (length bs) (concat (map escape_octet bs) @ rest) = Some (bs, rest)"
    using assms(2) by (rule read_continuations_escapes)
  moreover have "\<not> (length bs = 0 \<or> 3 < length bs)"
    using assms(4,5) by simp
  ultimately show ?thesis
    using assms(3,6)
    by (simp add: decode_escape del: utf8_code_point.simps read_continuations.simps)
qed

lemma div_0x1000: "(n::nat) div 0x1000 = n div 0x40 div 0x40"
  by (simp add: div_mult2_eq [symmetric])

lemma div_0x40000: "(n::nat) div 0x40000 = n div 0x40 div 0x40 div 0x40"
  by (simp add: div_mult2_eq [symmetric])

lemma base64_3:
  "q = q2 * 0x40 + r1 \<Longrightarrow> cp = q * 0x40 + r0 \<Longrightarrow> q2 * 0x1000 + r1 * 0x40 + r0 = (cp::nat)"
  by (simp add: add_mult_distrib)

lemma base64_4:
  "q2 = q3 * 0x40 + r2 \<Longrightarrow> q = q2 * 0x40 + r1 \<Longrightarrow> cp = q * 0x40 + r0 \<Longrightarrow>
   q3 * 0x40000 + r2 * 0x1000 + r1 * 0x40 + r0 = (cp::nat)"
  by (simp add: add_mult_distrib)

lemma recompose3:
  "(cp div 0x1000) * 0x1000 + (cp div 0x40 mod 0x40) * 0x40 + cp mod 0x40 = (cp::nat)"
  unfolding div_0x1000
proof (rule base64_3)
  show "cp div 0x40 = cp div 0x40 div 0x40 * 0x40 + cp div 0x40 mod 0x40"
    by (rule div_mult_mod_eq [symmetric])
  show "cp = cp div 0x40 * 0x40 + cp mod 0x40"
    by (rule div_mult_mod_eq [symmetric])
qed

lemma recompose4:
  "(cp div 0x40000) * 0x40000 + (cp div 0x1000 mod 0x40) * 0x1000 +
   (cp div 0x40 mod 0x40) * 0x40 + cp mod 0x40 = (cp::nat)"
  unfolding div_0x1000 div_0x40000
proof (rule base64_4)
  show "cp div 0x40 div 0x40 = cp div 0x40 div 0x40 div 0x40 * 0x40 + cp div 0x40 div 0x40 mod 0x40"
    by (rule div_mult_mod_eq [symmetric])
  show "cp div 0x40 = cp div 0x40 div 0x40 * 0x40 + cp div 0x40 mod 0x40"
    by (rule div_mult_mod_eq [symmetric])
  show "cp = cp div 0x40 * 0x40 + cp mod 0x40"
    by (rule div_mult_mod_eq [symmetric])
qed

lemma utf8_two:
  assumes "0x80 \<le> cp" and "cp < 0x800"
  shows "\<exists>b0 bs. utf8_octets cp = b0 # bs \<and> b0 < 256 \<and> (\<forall>b\<in>set bs. b < 256) \<and>
    leading_ones b0 = Suc (length bs) \<and> bs \<noteq> [] \<and> length bs \<le> 3 \<and>
    utf8_code_point (b0 # bs) = Some cp"
proof -
  define b0 where "b0 = 0xC0 + cp div 0x40"
  define b1 where "b1 = 0x80 + cp mod 0x40"
  have oct: "utf8_octets cp = [b0, b1]"
    using assms by (simp add: utf8_octets_def b0_def b1_def)
  have r0: "0xC0 \<le> b0" "b0 < 0xE0" using assms unfolding b0_def by simp_all
  have r1: "0x80 \<le> b1" "b1 < 0xC0" unfolding b1_def by simp_all
  have v: "(b0 - 0xC0) * 0x40 + (b1 - 0x80) = cp" unfolding b0_def b1_def by simp
  have lo: "leading_ones b0 = 2" using r0 by (simp add: leading_ones_def)
  have cp2: "utf8_code_point [b0, b1] = Some cp"
    using r0 r1 v assms by (simp add: is_continuation_def)
  show ?thesis
    using oct r0 r1 lo cp2 by simp
qed

lemma utf8_three:
  assumes "0x800 \<le> cp" and "cp < 0x10000" and "\<not> (0xD800 \<le> cp \<and> cp \<le> 0xDFFF)"
  shows "\<exists>b0 bs. utf8_octets cp = b0 # bs \<and> b0 < 256 \<and> (\<forall>b\<in>set bs. b < 256) \<and>
    leading_ones b0 = Suc (length bs) \<and> bs \<noteq> [] \<and> length bs \<le> 3 \<and>
    utf8_code_point (b0 # bs) = Some cp"
proof -
  define b0 where "b0 = 0xE0 + cp div 0x1000"
  define b1 where "b1 = 0x80 + cp div 0x40 mod 0x40"
  define b2 where "b2 = 0x80 + cp mod 0x40"
  have oct: "utf8_octets cp = [b0, b1, b2]"
    using assms by (simp add: utf8_octets_def b0_def b1_def b2_def)
  have r0: "0xE0 \<le> b0" "b0 < 0xF0" using assms unfolding b0_def by simp_all
  have r1: "0x80 \<le> b1" "b1 < 0xC0" unfolding b1_def by simp_all
  have r2: "0x80 \<le> b2" "b2 < 0xC0" unfolding b2_def by simp_all
  have v: "(b0 - 0xE0) * 0x1000 + (b1 - 0x80) * 0x40 + (b2 - 0x80) = cp"
    unfolding b0_def b1_def b2_def by (simp only: add_diff_cancel_left' recompose3)
  have lo: "leading_ones b0 = 3" using r0 by (simp add: leading_ones_def)
  have cp3: "utf8_code_point [b0, b1, b2] = Some cp"
    using r0 r1 r2 assms by (simp add: is_continuation_def v Let_def)
  show ?thesis
    using oct r0 r1 r2 lo cp3 by simp
qed

lemma utf8_four:
  assumes "0x10000 \<le> cp" and "cp \<le> 0x10FFFF"
  shows "\<exists>b0 bs. utf8_octets cp = b0 # bs \<and> b0 < 256 \<and> (\<forall>b\<in>set bs. b < 256) \<and>
    leading_ones b0 = Suc (length bs) \<and> bs \<noteq> [] \<and> length bs \<le> 3 \<and>
    utf8_code_point (b0 # bs) = Some cp"
proof -
  define b0 where "b0 = 0xF0 + cp div 0x40000"
  define b1 where "b1 = 0x80 + cp div 0x1000 mod 0x40"
  define b2 where "b2 = 0x80 + cp div 0x40 mod 0x40"
  define b3 where "b3 = 0x80 + cp mod 0x40"
  have oct: "utf8_octets cp = [b0, b1, b2, b3]"
    using assms by (simp add: utf8_octets_def b0_def b1_def b2_def b3_def)
  have r0: "0xF0 \<le> b0" "b0 < 0xF8" using assms unfolding b0_def by simp_all
  have r1: "0x80 \<le> b1" "b1 < 0xC0" unfolding b1_def by simp_all
  have r2: "0x80 \<le> b2" "b2 < 0xC0" unfolding b2_def by simp_all
  have r3: "0x80 \<le> b3" "b3 < 0xC0" unfolding b3_def by simp_all
  have v: "(b0 - 0xF0) * 0x40000 + (b1 - 0x80) * 0x1000 + (b2 - 0x80) * 0x40 + (b3 - 0x80) = cp"
    unfolding b0_def b1_def b2_def b3_def by (simp only: add_diff_cancel_left' recompose4)
  have lo: "leading_ones b0 = 4" using r0 by (simp add: leading_ones_def)
  have cp4: "utf8_code_point [b0, b1, b2, b3] = Some cp"
    using r0 r1 r2 r3 assms by (simp add: is_continuation_def v Let_def)
  show ?thesis
    using oct r0 r1 r2 r3 lo cp4 by simp
qed

lemma decode_code_point:
  assumes "0x80 \<le> cp" and "cp \<le> 0x10FFFF" and "\<not> (0xD800 \<le> cp \<and> cp \<le> 0xDFFF)"
  shows "decodeURIComponent (escape_code_point cp @ rest) =
    map_sum id ((@) (UTF16EncodeCodePoint cp)) (decodeURIComponent rest)"
proof -
  have "\<exists>b0 bs. utf8_octets cp = b0 # bs \<and> b0 < 256 \<and> (\<forall>b\<in>set bs. b < 256) \<and>
    leading_ones b0 = Suc (length bs) \<and> bs \<noteq> [] \<and> length bs \<le> 3 \<and>
    utf8_code_point (b0 # bs) = Some cp"
  proof -
    consider "cp < 0x800" | "0x800 \<le> cp" "cp < 0x10000" | "0x10000 \<le> cp" by linarith
    then show ?thesis
    proof cases
      case 1
      with assms show ?thesis by (intro utf8_two) simp_all
    next
      case 2
      with assms show ?thesis by (intro utf8_three) simp_all
    next
      case 3
      with assms show ?thesis by (intro utf8_four) simp_all
    qed
  qed
  then obtain b0 bs where o: "utf8_octets cp = b0 # bs" and
    f: "b0 < 256" "\<forall>b\<in>set bs. b < 256" "leading_ones b0 = Suc (length bs)" "bs \<noteq> []"
      "length bs \<le> 3" "utf8_code_point (b0 # bs) = Some cp"
    by blast
  show ?thesis
    unfolding escape_code_point_def o by (rule decode_sequence [OF f])
qed


lemma unat_16_le: "unat (c :: 16 word) \<le> 0xFFFF"
  using unsigned_less [of c, where ?'a = nat] by simp

lemma UTF16Encode_unit: "UTF16EncodeCodePoint (unat c) = [c]"
  by (simp add: UTF16EncodeCodePoint_def unat_16_le)

lemma surrogate_pair_range:
  assumes "is_lead_surrogate c" and "is_trail_surrogate d"
  shows "0x10000 \<le> UTF16SurrogatePairToCodePoint c d"
    and "UTF16SurrogatePairToCodePoint c d \<le> 0x10FFFF"
  using assms
  unfolding UTF16SurrogatePairToCodePoint_def is_lead_surrogate_def is_trail_surrogate_def
  by linarith+

lemma UTF16Encode_pair:
  assumes "is_lead_surrogate c" and "is_trail_surrogate d"
  shows "UTF16EncodeCodePoint (UTF16SurrogatePairToCodePoint c d) = [c, d]"
proof -
  define a where "a = unat c - 0xD800"
  define b where "b = unat d - 0xDC00"
  have a: "unat c = a + 0xD800" and b: "unat d = b + 0xDC00" and b': "b < 0x400"
    using assms unfolding a_def b_def is_lead_surrogate_def is_trail_surrogate_def
    by linarith+
  have cp: "UTF16SurrogatePairToCodePoint c d = a * 0x400 + b + 0x10000"
    by (simp add: UTF16SurrogatePairToCodePoint_def a_def b_def)
  have "(a * 0x400 + b) div 0x400 = a" "(a * 0x400 + b) mod 0x400 = b"
    using b' by simp_all
  then have "UTF16EncodeCodePoint (a * 0x400 + b + 0x10000) =
      [word_of_nat (unat c), word_of_nat (unat d)]"
    by (simp add: UTF16EncodeCodePoint_def a b)
  then show ?thesis by (simp add: cp)
qed

lemma unescaped_not_percent: "uriUnescaped c \<Longrightarrow> c \<noteq> 0x25"
  by (auto simp: uriUnescaped_def Let_def)

lemma decode_unit:
  assumes "\<not> is_lead_surrogate c" and "\<not> is_trail_surrogate c"
  shows "decodeURIComponent (escape_code_point (unat c) @ rest) =
    map_sum id ((#) c) (decodeURIComponent rest)"
proof (cases "unat c < 0x80")
  case True
  then show ?thesis by (simp add: decode_ascii)
next
  case False
  have "\<not> (0xD800 \<le> unat c \<and> unat c \<le> 0xDFFF)"
    using assms by (auto simp: is_lead_surrogate_def is_trail_surrogate_def)
  moreover have "unat c \<le> 0x10FFFF" using unat_16_le [of c] by simp
  ultimately have "decodeURIComponent (escape_code_point (unat c) @ rest) =
      map_sum id ((@) (UTF16EncodeCodePoint (unat c))) (decodeURIComponent rest)"
    using False by (intro decode_code_point) simp_all
  then show ?thesis
    by (cases "decodeURIComponent rest") (simp_all add: UTF16Encode_unit)
qed

lemma decode_pair:
  assumes "is_lead_surrogate c" and "is_trail_surrogate d"
  shows "decodeURIComponent (escape_code_point (UTF16SurrogatePairToCodePoint c d) @ rest) =
    map_sum id ((@) [c, d]) (decodeURIComponent rest)"
proof -
  let ?cp = "UTF16SurrogatePairToCodePoint c d"
  have "decodeURIComponent (escape_code_point ?cp @ rest) =
      map_sum id ((@) (UTF16EncodeCodePoint ?cp)) (decodeURIComponent rest)"
    using surrogate_pair_range [OF assms] by (intro decode_code_point) simp_all
  then show ?thesis by (simp only: UTF16Encode_pair [OF assms])
qed

lemma decode_encode:
  "encodeURIComponent s = Inr e \<Longrightarrow> decodeURIComponent e = Inr s"
proof (induction s arbitrary: e rule: encodeURIComponent.induct)
  case 1
  then show ?case by (simp add: decodeURIComponent.simps)
next
  case (2 c cs)
  show ?case
  proof (cases "uriUnescaped c")
    case True
    with "2.prems" obtain e' where e': "encodeURIComponent cs = Inr e'" "e = c # e'"
      by (cases "encodeURIComponent cs") auto
    with True "2.IH"(1) show ?thesis
      by (simp add: decode_plain unescaped_not_percent)
  next
    case False
    note unesc = this
    from False "2.prems" have nt: "\<not> is_trail_surrogate c" by (auto split: if_splits)
    show ?thesis
    proof (cases "is_lead_surrogate c")
      case True
      with unesc nt "2.prems" obtain d ds where cs: "cs = d # ds" and d: "is_trail_surrogate d"
        by (cases cs) (auto split: if_splits)
      with unesc nt True "2.prems" obtain e' where
        e': "encodeURIComponent ds = Inr e'"
          "e = escape_code_point (UTF16SurrogatePairToCodePoint c d) @ e'"
        by (cases "encodeURIComponent ds") auto
      have "decodeURIComponent e' = Inr ds"
        using "2.IH"(2) [OF unesc nt True cs d e'(1)] .
      then show ?thesis
        by (simp add: e'(2) cs decode_pair [OF True d])
    next
      case False
      with unesc nt "2.prems" obtain e' where
        e': "encodeURIComponent cs = Inr e'" "e = escape_code_point (unat c) @ e'"
        by (cases "encodeURIComponent cs") auto
      have "decodeURIComponent e' = Inr cs"
        using "2.IH"(3) [OF unesc nt False e'(1)] .
      then show ?thesis
        by (simp add: e'(2) decode_unit [OF False nt])
    qed
  qed
qed

lemma unescaped_not_surrogate:
  "uriUnescaped c \<Longrightarrow> \<not> is_trail_surrogate c \<and> \<not> is_lead_surrogate c"
  by (auto simp: uriUnescaped_def is_trail_surrogate_def is_lead_surrogate_def Let_def)

lemma encodeURIComponent_well_formed:
  "well_formed_utf16 s \<Longrightarrow> \<exists>e. encodeURIComponent s = Inr e"
proof (induction s rule: encodeURIComponent.induct)
  case 1
  then show ?case by simp
next
  case (2 c cs)
  show ?case
  proof (cases "uriUnescaped c")
    case True
    with 2 unescaped_not_surrogate [of c] show ?thesis by auto
  next
    case False
    with 2 show ?thesis
      by (cases cs) (auto split: if_splits)
  qed
qed

lemma encodeURIComponent_ill_formed:
  "\<not> well_formed_utf16 s \<Longrightarrow> encodeURIComponent s = Inl URIError"
proof (induction s rule: encodeURIComponent.induct)
  case 1
  then show ?case by simp
next
  case (2 c cs)
  show ?case
  proof (cases "uriUnescaped c")
    case True
    with 2 unescaped_not_surrogate [of c] show ?thesis by auto
  next
    case False
    with 2 show ?thesis
      by (cases cs) (auto split: if_splits)
  qed
qed

section \<open>Accepted clicks\<close>

lemma onCellClick_accepted:
  "canPlay s \<Longrightarrow> cell_is_empty (board s) i \<Longrightarrow>
   onCellClick s i net = onCellClick_resume (sessionId s) (s\<lparr>error := None, busy := True\<rparr>) (postMove net)"
  by (simp add: onCellClick_def onCellClick_begin_def)

section \<open>The reward link\<close>

lemma link_prefix:
  "js ''https://t.me/'' @ BOT_USERNAME @ js ''?start='' @ e = js ''https://t.me/ttt432_bot?start='' @ e"
  by (simp add: js_def BOT_USERNAME_def)

text \<open>
  C6, as amended. For a session identifier with no unpaired surrogate,
  \<open>buildTelegramLink\<close> returns \<^verbatim>\<open>https://t.me/ttt432_bot?start=\<close> followed by the
  percent-encoding of the identifier, and \<open>decodeURIComponent\<close> of that parameter is the
  identifier again. For an identifier with an unpaired surrogate it throws the
  \<open>URIError\<close> of \<open>encodeURIComponent\<close>. (Being a function of \<open>sid\<close> alone, it is
  deterministic.)
\<close>

theorem buildTelegramLink_round_trip:
  "(well_formed_utf16 sid \<longrightarrow>
      (\<exists>e. buildTelegramLink sid = Inr (js ''https://t.me/ttt432_bot?start='' @ e) \<and>
           encodeURIComponent sid = Inr e \<and> decodeURIComponent e = Inr sid)) \<and>
   (\<not> well_formed_utf16 sid \<longrightarrow> buildTelegramLink sid = Inl URIError)"
proof (intro conjI impI)
  assume "well_formed_utf16 sid"
  then obtain e where e: "encodeURIComponent sid = Inr e"
    using encodeURIComponent_well_formed by blast
  then have "decodeURIComponent e = Inr sid" by (rule decode_encode)
  with e show "\<exists>e. buildTelegramLink sid = Inr (js ''https://t.me/ttt432_bot?start='' @ e) \<and>
      encodeURIComponent sid = Inr e \<and> decodeURIComponent e = Inr sid"
    by (simp add: buildTelegramLink_def link_prefix)
next
  assume "\<not> well_formed_utf16 sid"
  then show "buildTelegramLink sid = Inl URIError"
    by (simp add: buildTelegramLink_def encodeURIComponent_ill_formed)
qed

lemma encode_s_1_2:
  "encodeURIComponent (js ''s_1 2'') = Inr (js ''s_1%202'')"
  by (simp add: js_def uriUnescaped_def is_trail_surrogate_def is_lead_surrogate_def
      escape_code_point_def utf8_octets_def escape_octet_def hex_digit_def)

theorem buildTelegramLink_round_trip_witness:
  "well_formed_utf16 (js ''s_1 2'') \<and>
   buildTelegramLink (js ''s_1 2'') = Inr (js ''https://t.me/ttt432_bot?start=s_1%202'') \<and>
   decodeURIComponent (js ''s_1%202'') = Inr (js ''s_1 2'') \<and>
   \<not> well_formed_utf16 [0xDC00, 0x41] \<and> buildTelegramLink [0xDC00, 0x41] = Inl URIError"
proof -
  have wf: "well_formed_utf16 (js ''s_1 2'')"
    by (simp add: js_def is_trail_surrogate_def is_lead_surrogate_def)
  have nwf: "\<not> well_formed_utf16 [0xDC00, 0x41]"
    by (simp add: is_trail_surrogate_def)
  from wf buildTelegramLink_round_trip [of "js ''s_1 2''"]
  have "decodeURIComponent (js ''s_1%202'') = Inr (js ''s_1 2'')"
    by (simp add: encode_s_1_2)
  moreover have "buildTelegramLink (js ''s_1 2'') = Inr (js ''https://t.me/ttt432_bot?start=s_1%202'')"
    by (simp add: buildTelegramLink_def encode_s_1_2 link_prefix) (simp add: js_def)
  moreover from nwf buildTelegramLink_round_trip [of "[0xDC00, 0x41]"]
  have "buildTelegramLink [0xDC00, 0x41] = Inl URIError" by simp
  ultimately show ?thesis using wf nwf by simp
qed

text \<open>
  C6 as the specification states it fails at the one-unit string \<open>[0xD800]\<close>, a lead
  surrogate on its own: no link is returned.
\<close>

theorem buildTelegramLink_lone_surrogate:
  "buildTelegramLink [0xD800] = Inl URIError"
  by (simp add: buildTelegramLink_def uriUnescaped_def is_trail_surrogate_def
      is_lead_surrogate_def)

section \<open>A move that the server answers\<close>

text \<open>
  C1, as amended. An accepted click whose request is answered by a response \<open>r\<close>
  leaves the board \<open>board_r r\<close> and the status \<open>status_r r\<close>, clears \<open>busy\<close>, and
  \<^item> when \<open>status_r r\<close> is \<open>win\<close> and the session identifier has no unpaired surrogate,
    stores the link \<^verbatim>\<open>https://t.me/ttt432_bot?start=\<close> with the encoded identifier and
    leaves the error empty;
  \<^item> when \<open>status_r r\<close> is \<open>win\<close> and the identifier has an unpaired surrogate, stores
    no link and sets the error to the message of the \<open>URIError\<close>;
  \<^item> when \<open>status_r r\<close> is not \<open>win\<close>, leaves the link as it was and the error empty.
\<close>

theorem onCellClick_success:
  assumes "canPlay s" and "cell_is_empty (board s) i"
  shows "board (onCellClick s i (Ok (Json r))) = board_r r \<and>
    status (onCellClick s i (Ok (Json r))) = status_r r \<and>
    busy (onCellClick s i (Ok (Json r))) = False \<and>
    (status_r r = win \<and> well_formed_utf16 (sessionId s) \<longrightarrow>
       (\<exists>e. encodeURIComponent (sessionId s) = Inr e \<and>
            tgLink (onCellClick s i (Ok (Json r))) =
              Some (js ''https://t.me/ttt432_bot?start='' @ e)) \<and>
       error (onCellClick s i (Ok (Json r))) = None) \<and>
    (status_r r = win \<and> \<not> well_formed_utf16 (sessionId s) \<longrightarrow>
       tgLink (onCellClick s i (Ok (Json r))) = tgLink s \<and>
       error (onCellClick s i (Ok (Json r))) = Some (catch_message URIError)) \<and>
    (status_r r \<noteq> win \<longrightarrow>
       tgLink (onCellClick s i (Ok (Json r))) = tgLink s \<and>
       error (onCellClick s i (Ok (Json r))) = None)"
proof -
  let ?s' = "onCellClick s i (Ok (Json r))"
  have run: "?s' = onCellClick_resume (sessionId s) (s\<lparr>error := None, busy := True\<rparr>) (Inr r)"
    using assms by (simp add: onCellClick_accepted postMove_def)
  have b: "board ?s' = board_r r" and st: "status ?s' = status_r r" and bs: "busy ?s' = False"
    unfolding run by (simp_all add: onCellClick_resume_def Let_def split: sum.splits)
  have lk: "(\<exists>e. encodeURIComponent (sessionId s) = Inr e \<and>
      tgLink ?s' = Some (js ''https://t.me/ttt432_bot?start='' @ e)) \<and> error ?s' = None"
    if "status_r r = win" "well_formed_utf16 (sessionId s)"
  proof -
    from that(2) obtain e where e: "encodeURIComponent (sessionId s) = Inr e"
      using encodeURIComponent_well_formed by blast
    with that(1) show ?thesis
      unfolding run by (simp add: onCellClick_resume_def buildTelegramLink_def link_prefix)
  qed
  have il: "tgLink ?s' = tgLink s \<and> error ?s' = Some (catch_message URIError)"
    if "status_r r = win" "\<not> well_formed_utf16 (sessionId s)"
    unfolding run using that
    by (simp add: onCellClick_resume_def buildTelegramLink_def encodeURIComponent_ill_formed)
  have nl: "tgLink ?s' = tgLink s \<and> error ?s' = None" if "status_r r \<noteq> win"
    unfolding run using that by (simp add: onCellClick_resume_def)
  from b st bs lk il nl show ?thesis by blast
qed

text \<open>
  The scenario of the specification: empty board, click on cell 4, the server answers
  \<open>win\<close> with the board \<open>[0,0,0,0,1,0,0,0,2]\<close>; the session identifier is \<open>S\<close>.
\<close>

theorem onCellClick_success_witness:
  "canPlay \<lparr>sessionId = js ''S'', board = EmptyBoard, status = in_progress, busy = False,
      error = None, tgLink = None\<rparr> \<and>
   cell_is_empty EmptyBoard 4 \<and> well_formed_utf16 (js ''S'') \<and>
   onCellClick \<lparr>sessionId = js ''S'', board = EmptyBoard, status = in_progress, busy = False,
      error = None, tgLink = None\<rparr> 4
     (Ok (Json \<lparr>success = True, status_r = win,
        board_r = [Empty, Empty, Empty, Empty, PlayerX, Empty, Empty, Empty, BotO],
        promoCode = None\<rparr>)) =
   \<lparr>sessionId = js ''S'',
    board = [Empty, Empty, Empty, Empty, PlayerX, Empty, Empty, Empty, BotO],
    status = win, busy = False, error = None,
    tgLink = Some (js ''https://t.me/ttt432_bot?start=S'')\<rparr>"
proof -
  let ?s = "\<lparr>sessionId = js ''S'', board = EmptyBoard, status = in_progress, busy = False,
      error = None, tgLink = None\<rparr>"
  let ?r = "\<lparr>success = True, status_r = win,
        board_r = [Empty, Empty, Empty, Empty, PlayerX, Empty, Empty, Empty, BotO],
        promoCode = None\<rparr>"
  have cp: "canPlay ?s" by (simp add: canPlay_def)
  have ce: "cell_is_empty (board ?s) 4" by (simp add: cell_is_empty_def EmptyBoard_def)
  have wf: "well_formed_utf16 (js ''S'')"
    by (simp add: js_def is_trail_surrogate_def is_lead_surrogate_def)
  have enc: "encodeURIComponent (js ''S'') = Inr (js ''S'')"
    by (simp add: js_def uriUnescaped_def)
  have sid: "sessionId (onCellClick ?s 4 (Ok (Json ?r))) = js ''S''"
    using cp ce by (simp add: onCellClick_accepted onCellClick_resume_def postMove_def Let_def
        split: sum.splits)
  from onCellClick_success [OF cp ce, of ?r] wf enc
  have "board (onCellClick ?s 4 (Ok (Json ?r))) =
      [Empty, Empty, Empty, Empty, PlayerX, Empty, Empty, Empty, BotO]"
    and "status (onCellClick ?s 4 (Ok (Json ?r))) = win"
    and "busy (onCellClick ?s 4 (Ok (Json ?r))) = False"
    and "error (onCellClick ?s 4 (Ok (Json ?r))) = None"
    and "tgLink (onCellClick ?s 4 (Ok (Json ?r))) = Some (js ''https://t.me/ttt432_bot?start=S'')"
    by (simp_all add: js_def)
  with sid have "onCellClick ?s 4 (Ok (Json ?r)) =
      \<lparr>sessionId = js ''S'',
       board = [Empty, Empty, Empty, Empty, PlayerX, Empty, Empty, Empty, BotO],
       status = win, busy = False, error = None,
       tgLink = Some (js ''https://t.me/ttt432_bot?start=S'')\<rparr>"
    by (cases "onCellClick ?s 4 (Ok (Json ?r))") simp
  with cp ce wf show ?thesis by (simp add: EmptyBoard_def)
qed

text \<open>
  C1 as the specification states it fails where the stored session identifier is a
  lone surrogate: the server answers \<open>win\<close>, and no reward link is stored.
\<close>

theorem onCellClick_win_without_link:
  "status (onCellClick \<lparr>sessionId = [0xD800], board = EmptyBoard, status = in_progress,
      busy = False, error = None, tgLink = None\<rparr> 4
     (Ok (Json \<lparr>success = True, status_r = win,
        board_r = [Empty, Empty, Empty, Empty, PlayerX, Empty, Empty, Empty, BotO],
        promoCode = None\<rparr>))) = win \<and>
   tgLink (onCellClick \<lparr>sessionId = [0xD800], board = EmptyBoard, status = in_progress,
      busy = False, error = None, tgLink = None\<rparr> 4
     (Ok (Json \<lparr>success = True, status_r = win,
        board_r = [Empty, Empty, Empty, Empty, PlayerX, Empty, Empty, Empty, BotO],
        promoCode = None\<rparr>))) = None"
  by (simp add: onCellClick_def onCellClick_begin_def canPlay_def cell_is_empty_def
      EmptyBoard_def postMove_def onCellClick_resume_def buildTelegramLink_def
      uriUnescaped_def is_trail_surrogate_def is_lead_surrogate_def)

section \<open>A move that fails\<close>






section \<open>The session identifier\<close>

text \<open>
  C7, as amended. With \<open>key\<close> the fixed key \<^verbatim>\<open>ttt_session_id\<close>:
  \<^item> a stored identifier that is not the empty string is returned, and the storage is
    left as it is;
  \<^item> with nothing stored, or the empty string, the identifier \<^verbatim>\<open>s_\<close> followed by the
    UUID is returned and stored under the key;
  \<^item> a second call on the storage that the first call leaves returns the identifier of
    the first, whatever UUID is drawn, and writes nothing;
  \<^item> a call on the cleared storage returns the new \<^verbatim>\<open>s_\<close> and UUID; when the first
    identifier was generated too, the two differ exactly when the two UUIDs do.
\<close>

theorem getOrCreateSessionId_idempotent:
  "(localStorage (js ''ttt_session_id'') = Some e \<and> e \<noteq> [] \<longrightarrow>
      getOrCreateSessionId localStorage uuid = (e, localStorage)) \<and>
   (localStorage (js ''ttt_session_id'') = None \<or> localStorage (js ''ttt_session_id'') = Some [] \<longrightarrow>
      getOrCreateSessionId localStorage uuid =
        (js ''s_'' @ uuid, localStorage(js ''ttt_session_id'' \<mapsto> js ''s_'' @ uuid))) \<and>
   getOrCreateSessionId (snd (getOrCreateSessionId localStorage uuid)) uuid' =
     getOrCreateSessionId localStorage uuid \<and>
   getOrCreateSessionId (Storage_clear (snd (getOrCreateSessionId localStorage uuid))) uuid' =
     (js ''s_'' @ uuid', [js ''ttt_session_id'' \<mapsto> js ''s_'' @ uuid']) \<and>
   (localStorage (js ''ttt_session_id'') = None \<longrightarrow>
      (fst (getOrCreateSessionId (Storage_clear (snd (getOrCreateSessionId localStorage uuid))) uuid')
         \<noteq> fst (getOrCreateSessionId localStorage uuid)) = (uuid' \<noteq> uuid))"
proof -
  have nonempty: "js ''s_'' \<noteq> []" by (simp add: js_def)
  have stored: "getOrCreateSessionId localStorage uuid = (e, localStorage)"
    if "localStorage (js ''ttt_session_id'') = Some e" "e \<noteq> []" for localStorage e uuid
    using that by (simp add: getOrCreateSessionId_def)
  have created: "getOrCreateSessionId localStorage uuid =
      (js ''s_'' @ uuid, localStorage(js ''ttt_session_id'' \<mapsto> js ''s_'' @ uuid))"
    if "localStorage (js ''ttt_session_id'') = None \<or> localStorage (js ''ttt_session_id'') = Some []"
    for localStorage uuid
    using that by (auto simp: getOrCreateSessionId_def Let_def)
  have again: "getOrCreateSessionId (snd (getOrCreateSessionId localStorage uuid)) uuid' =
     getOrCreateSessionId localStorage uuid"
  proof (cases "localStorage (js ''ttt_session_id'') = None \<or> localStorage (js ''ttt_session_id'') = Some []")
    case True
    have "getOrCreateSessionId localStorage uuid =
        (js ''s_'' @ uuid, localStorage(js ''ttt_session_id'' \<mapsto> js ''s_'' @ uuid))"
      using True by (rule created [of localStorage uuid])
    moreover have "getOrCreateSessionId (localStorage(js ''ttt_session_id'' \<mapsto> js ''s_'' @ uuid)) uuid' =
        (js ''s_'' @ uuid, localStorage(js ''ttt_session_id'' \<mapsto> js ''s_'' @ uuid))"
      by (rule stored) (simp_all add: nonempty)
    ultimately show ?thesis by simp
  next
    case False
    then obtain e where e: "localStorage (js ''ttt_session_id'') = Some e" "e \<noteq> []" by auto
    show ?thesis using e by (simp add: stored [of localStorage e])
  qed
  have cleared: "getOrCreateSessionId (Storage_clear st) uuid' =
      (js ''s_'' @ uuid', [js ''ttt_session_id'' \<mapsto> js ''s_'' @ uuid'])" for st
    by (simp add: created Storage_clear_def)
  have differ: "(fst (getOrCreateSessionId (Storage_clear (snd (getOrCreateSessionId localStorage uuid))) uuid')
         \<noteq> fst (getOrCreateSessionId localStorage uuid)) = (uuid' \<noteq> uuid)"
    if "localStorage (js ''ttt_session_id'') = None"
    using that by (simp add: cleared created)
  from stored created again cleared differ show ?thesis by blast
qed

theorem getOrCreateSessionId_idempotent_witness:
  "getOrCreateSessionId [js ''ttt_session_id'' \<mapsto> js ''s_old''] (js ''u1'') =
     (js ''s_old'', [js ''ttt_session_id'' \<mapsto> js ''s_old'']) \<and>
   getOrCreateSessionId Map.empty (js ''u1'') =
     (js ''s_u1'', [js ''ttt_session_id'' \<mapsto> js ''s_u1'']) \<and>
   fst (getOrCreateSessionId (Storage_clear (snd (getOrCreateSessionId Map.empty (js ''u1'')))) (js ''u2''))
     \<noteq> fst (getOrCreateSessionId Map.empty (js ''u1''))"
proof -
  have a: "[js ''ttt_session_id'' \<mapsto> js ''s_old''] (js ''ttt_session_id'') = Some (js ''s_old'') \<and>
      js ''s_old'' \<noteq> []"
    by (simp add: js_def)
  have b: "(Map.empty :: storage) (js ''ttt_session_id'') = None" by simp
  have c: "js ''u2'' \<noteq> js ''u1''" by (simp add: js_def)
  have d: "js ''s_'' @ js ''u1'' = js ''s_u1''" by (simp add: js_def)
  note old = getOrCreateSessionId_idempotent
    [of "[js ''ttt_session_id'' \<mapsto> js ''s_old'']" "js ''s_old''" "js ''u1''" "js ''u2''"]
  note new = getOrCreateSessionId_idempotent [of Map.empty "[]" "js ''u1''" "js ''u2''"]
  have 1: "getOrCreateSessionId [js ''ttt_session_id'' \<mapsto> js ''s_old''] (js ''u1'') =
     (js ''s_old'', [js ''ttt_session_id'' \<mapsto> js ''s_old''])"
    using old [THEN conjunct1, rule_format, OF a] .
  have 2: "getOrCreateSessionId Map.empty (js ''u1'') =
     (js ''s_u1'', [js ''ttt_session_id'' \<mapsto> js ''s_u1''])"
    using new [THEN conjunct2, THEN conjunct1, rule_format, OF disjI1, OF b] by (simp only: d)
  have 3: "fst (getOrCreateSessionId (Storage_clear (snd (getOrCreateSessionId Map.empty (js ''u1'')))) (js ''u2''))
     \<noteq> fst (getOrCreateSessionId Map.empty (js ''u1''))"
    using new [THEN conjunct2, THEN conjunct2, THEN conjunct2, THEN conjunct2, rule_format, OF b] c
    by (simp only: simp_thms)
  from 1 2 3 show ?thesis by (intro conjI)
qed

text \<open>
  C7 as the specification states it fails where the empty string is stored under the
  key: it is not returned, and the storage is written.
\<close>

theorem getOrCreateSessionId_empty_stored:
  "fst (getOrCreateSessionId [js ''ttt_session_id'' \<mapsto> []] (js ''u1'')) = js ''s_u1'' \<and>
   js ''s_u1'' \<noteq> [] \<and>
   snd (getOrCreateSessionId [js ''ttt_session_id'' \<mapsto> []] (js ''u1'')) (js ''ttt_session_id'')
     = Some (js ''s_u1'')"
  by (simp add: getOrCreateSessionId_def Let_def) (simp add: js_def)

section \<open>Events in any order\<close>

lemma run_Nil: "run [] \<sigma> = \<sigma>"
  by (simp add: run_def)

lemma run_Cons: "run (ev # evs) \<sigma> = run evs (step \<sigma> ev)"
  by (simp add: run_def)

lemma run_snoc: "run (evs @ [ev]) \<sigma> = step (run evs \<sigma>) ev"
  by (simp add: run_def)

lemma step_Click_accepted:
  "canPlay (app \<sigma>) \<Longrightarrow> cell_is_empty (board (app \<sigma>)) i \<Longrightarrow>
   step \<sigma> (Click i) =
     \<sigma>\<lparr>app := (app \<sigma>)\<lparr>error := None, busy := True\<rparr>,
       in_flight := in_flight \<sigma> @
         [\<lparr>sessionId_q = sessionId (app \<sigma>), board_q = board (app \<sigma>), cellIndex = i\<rparr>]\<rparr>"
  by (simp add: step.simps(1) onCellClick_begin_def)

declare step.simps(1) [simp del]

lemma step_Click_dropped:
  "\<not> (canPlay (app \<sigma>) \<and> cell_is_empty (board (app \<sigma>)) i) \<Longrightarrow> step \<sigma> (Click i) = \<sigma>"
  by (auto simp: step.simps(1) onCellClick_begin_def)

lemma EmptyBoard_cells:
  "EmptyBoard = [Empty, Empty, Empty, Empty, Empty, Empty, Empty, Empty, Empty]"
  by (simp add: EmptyBoard_def numeral_eq_Suc)

lemma sessionId_resume [simp]: "sessionId (onCellClick_resume sid s r) = sessionId s"
  by (simp add: onCellClick_resume_def Let_def split: sum.splits)

lemma busy_resume [simp]: "busy (onCellClick_resume sid s r) = False"
  by (simp add: onCellClick_resume_def Let_def split: sum.splits)

lemma one_in_flight_step: "one_in_flight \<sigma> \<Longrightarrow> one_in_flight (step \<sigma> ev)"
proof (cases ev)
  case (Click i)
  assume inv: "one_in_flight \<sigma>"
  show ?thesis
  proof (cases "canPlay (app \<sigma>) \<and> cell_is_empty (board (app \<sigma>)) i")
    case True
    with inv have "in_flight \<sigma> = []" by (simp add: one_in_flight_def canPlay_def)
    with True Click show ?thesis by (simp add: step_Click_accepted one_in_flight_def)
  next
    case False
    with inv Click show ?thesis by (simp add: step_Click_dropped)
  qed
next
  case Reset
  assume "one_in_flight \<sigma>"
  with Reset show ?thesis by (simp add: one_in_flight_def resetGame_def)
next
  case CloseModal
  assume "one_in_flight \<sigma>"
  with CloseModal show ?thesis by (simp add: one_in_flight_def)
next
  case (Settle k net)
  assume inv: "one_in_flight \<sigma>"
  show ?thesis
  proof (cases "k < length (in_flight \<sigma>)")
    case True
    with inv have "k = 0" "length (in_flight \<sigma>) = 1" by (simp_all add: one_in_flight_def)
    then have "remove_nth k (in_flight \<sigma>) = []" by (simp add: remove_nth_def)
    with True Settle show ?thesis by (simp add: one_in_flight_def)
  next
    case False
    with inv Settle show ?thesis by simp
  qed
qed

lemma one_in_flight_run: "one_in_flight \<sigma> \<Longrightarrow> one_in_flight (run evs \<sigma>)"
  by (induction evs arbitrary: \<sigma>) (simp_all add: run_Nil run_Cons one_in_flight_step)

lemma one_in_flight_started: "one_in_flight (run evs (started localStorage uuid))"
  by (rule one_in_flight_run) (simp add: one_in_flight_def started_def App_mounted_def App_initial_def)

section \<open>A reset while a request is in flight\<close>

lemma run_append: "run (xs @ ys) \<sigma> = run ys (run xs \<sigma>)"
  by (simp add: run_def)

text \<open>
  The three events for any state of the component and any list of calls already in
  flight: the request of the click is appended to the list, so it is the call at index
  \<open>length (in_flight \<sigma>)\<close>.
\<close>

lemma reset_then_settle:
  assumes "canPlay (app \<sigma>)" and "cell_is_empty (board (app \<sigma>)) i"
  shows "run [Click i, Reset] \<sigma> =
      \<sigma>\<lparr>app := resetGame ((app \<sigma>)\<lparr>error := None, busy := True\<rparr>),
        in_flight := in_flight \<sigma> @
          [\<lparr>sessionId_q = sessionId (app \<sigma>), board_q = board (app \<sigma>), cellIndex = i\<rparr>]\<rparr>"
    and "app (run [Click i, Reset, Settle (length (in_flight \<sigma>)) net] \<sigma>) =
      onCellClick_resume (sessionId (app \<sigma>))
        (resetGame ((app \<sigma>)\<lparr>error := None, busy := True\<rparr>)) (postMove net)"
  using assms by (simp_all add: run_Cons run_Nil step_Click_accepted)

lemma resume_after_reset_response:
  "onCellClick_resume sid (resetGame s) (Inr r) =
     (if status_r r = win then
        (case buildTelegramLink sid of
           Inr link \<Rightarrow>
             s\<lparr>board := board_r r, status := win, busy := False, error := None,
               tgLink := Some link\<rparr>
         | Inl e \<Rightarrow>
             s\<lparr>board := board_r r, status := win, busy := False,
               error := Some (catch_message e), tgLink := None\<rparr>)
      else s\<lparr>board := board_r r, status := status_r r, busy := False, error := None,
             tgLink := None\<rparr>)"
  by (simp add: onCellClick_resume_def resetGame_def split: sum.splits)

lemma resume_after_reset_thrown:
  "onCellClick_resume sid (resetGame s) (Inl e) =
     s\<lparr>board := EmptyBoard, status := in_progress, busy := False,
       error := Some (catch_message e), tgLink := None\<rparr>"
  by (simp add: onCellClick_resume_def resetGame_def)

text \<open>
  C5, as amended. Take any state of the component that accepts a click on cell \<open>i\<close>,
  with any calls already in flight. A reset between the click and the settling of its
  request does not cancel the request and does not make the handler drop the response:
  the busy flag stays set after the reset, the request stays in flight, and when it
  settles the handler runs on the reset state. With \<open>s\<close> the state before the click:
  \<^item> a response \<open>r\<close> whose status is not \<open>win\<close> leaves \<open>s\<close> with \<open>board_r r\<close> and
    \<open>status_r r\<close> in place of the empty board and \<open>in_progress\<close>, no error, no link and
    \<open>busy\<close> false;
  \<^item> a response \<open>r\<close> whose status is \<open>win\<close> leaves \<open>s\<close> with \<open>board_r r\<close>, \<open>win\<close>, \<open>busy\<close>
    false and, for a session identifier with no unpaired surrogate, the link
    \<^verbatim>\<open>https://t.me/ttt432_bot?start=\<close> with the encoded identifier and no error; for an
    identifier with an unpaired surrogate, no link and the message of the \<open>URIError\<close>;
  \<^item> only a thrown value leaves the empty board, \<open>in_progress\<close> and the absent link of
    the reset; it sets the error and clears \<open>busy\<close>.
  The last two lines hold of the handler alone, for whatever state \<open>s'\<close> the reset was
  applied to and whatever session identifier \<open>sid\<close> the handler closed over.
\<close>

theorem reset_in_flight:
  assumes "canPlay (app \<sigma>)" and "cell_is_empty (board (app \<sigma>)) i"
  shows "busy (app (run [Click i, Reset] \<sigma>)) = True \<and>
    board (app (run [Click i, Reset] \<sigma>)) = EmptyBoard \<and>
    in_flight (run [Click i, Reset] \<sigma>) =
      in_flight \<sigma> @
        [\<lparr>sessionId_q = sessionId (app \<sigma>), board_q = board (app \<sigma>), cellIndex = i\<rparr>] \<and>
    (status_r r \<noteq> win \<longrightarrow>
       app (run [Click i, Reset, Settle (length (in_flight \<sigma>)) (Ok (Json r))] \<sigma>) =
         (app \<sigma>)\<lparr>board := board_r r, status := status_r r, busy := False, error := None,
           tgLink := None\<rparr>) \<and>
    (status_r r = win \<and> well_formed_utf16 (sessionId (app \<sigma>)) \<longrightarrow>
       (\<exists>enc. encodeURIComponent (sessionId (app \<sigma>)) = Inr enc \<and>
          app (run [Click i, Reset, Settle (length (in_flight \<sigma>)) (Ok (Json r))] \<sigma>) =
            (app \<sigma>)\<lparr>board := board_r r, status := win, busy := False, error := None,
              tgLink := Some (js ''https://t.me/ttt432_bot?start='' @ enc)\<rparr>)) \<and>
    (status_r r = win \<and> \<not> well_formed_utf16 (sessionId (app \<sigma>)) \<longrightarrow>
       app (run [Click i, Reset, Settle (length (in_flight \<sigma>)) (Ok (Json r))] \<sigma>) =
         (app \<sigma>)\<lparr>board := board_r r, status := win, busy := False,
           error := Some (catch_message URIError), tgLink := None\<rparr>) \<and>
    (postMove net = Inl e \<longrightarrow>
       app (run [Click i, Reset, Settle (length (in_flight \<sigma>)) net] \<sigma>) =
         (app \<sigma>)\<lparr>board := EmptyBoard, status := in_progress, busy := False,
           error := Some (catch_message e), tgLink := None\<rparr>) \<and>
    board (onCellClick_resume sid (resetGame s') (postMove (Ok (Json r)))) = board_r r \<and>
    status (onCellClick_resume sid (resetGame s') (postMove (Ok (Json r)))) = status_r r \<and>
    (status_r r = win \<and> buildTelegramLink sid = Inr link \<longrightarrow>
       tgLink (onCellClick_resume sid (resetGame s') (postMove (Ok (Json r)))) = Some link)"
proof -
  let ?s = "app \<sigma>"
  let ?k = "length (in_flight \<sigma>)"
  note two = reset_then_settle(1) [OF assms]
  have three: "app (run [Click i, Reset, Settle ?k net] \<sigma>) =
      onCellClick_resume (sessionId ?s) (resetGame (?s\<lparr>error := None, busy := True\<rparr>))
        (postMove net)" for net
    by (rule reset_then_settle(2) [OF assms])
  have ok: "postMove (Ok (Json r)) = Inr r" by (simp add: postMove_def)
  have a: "busy (app (run [Click i, Reset] \<sigma>)) = True"
    and b: "board (app (run [Click i, Reset] \<sigma>)) = EmptyBoard"
    and c: "in_flight (run [Click i, Reset] \<sigma>) =
      in_flight \<sigma> @
        [\<lparr>sessionId_q = sessionId ?s, board_q = board ?s, cellIndex = i\<rparr>]"
    unfolding two by (simp_all add: resetGame_def)
  have lose: "app (run [Click i, Reset, Settle ?k (Ok (Json r))] \<sigma>) =
      ?s\<lparr>board := board_r r, status := status_r r, busy := False, error := None,
        tgLink := None\<rparr>"
    if "status_r r \<noteq> win"
    unfolding three ok resume_after_reset_response using that by simp
  have won: "\<exists>enc. encodeURIComponent (sessionId ?s) = Inr enc \<and>
      app (run [Click i, Reset, Settle ?k (Ok (Json r))] \<sigma>) =
        ?s\<lparr>board := board_r r, status := win, busy := False, error := None,
          tgLink := Some (js ''https://t.me/ttt432_bot?start='' @ enc)\<rparr>"
    if "status_r r = win" "well_formed_utf16 (sessionId ?s)"
  proof -
    from that(2) obtain enc where enc: "encodeURIComponent (sessionId ?s) = Inr enc"
      using encodeURIComponent_well_formed by blast
    then have "buildTelegramLink (sessionId ?s) = Inr (js ''https://t.me/ttt432_bot?start='' @ enc)"
      by (simp add: buildTelegramLink_def link_prefix)
    with enc that(1) show ?thesis
      unfolding three ok resume_after_reset_response by simp
  qed
  have ill: "app (run [Click i, Reset, Settle ?k (Ok (Json r))] \<sigma>) =
      ?s\<lparr>board := board_r r, status := win, busy := False,
        error := Some (catch_message URIError), tgLink := None\<rparr>"
    if "status_r r = win" "\<not> well_formed_utf16 (sessionId ?s)"
  proof -
    from that(2) have "buildTelegramLink (sessionId ?s) = Inl URIError"
      by (simp add: buildTelegramLink_def encodeURIComponent_ill_formed)
    with that(1) show ?thesis
      unfolding three ok resume_after_reset_response by simp
  qed
  have thrown: "app (run [Click i, Reset, Settle ?k net] \<sigma>) =
      ?s\<lparr>board := EmptyBoard, status := in_progress, busy := False,
        error := Some (catch_message e), tgLink := None\<rparr>"
    if "postMove net = Inl e"
    unfolding three that resume_after_reset_thrown by simp
  have h1: "board (onCellClick_resume sid (resetGame s') (postMove (Ok (Json r)))) = board_r r"
    and h2: "status (onCellClick_resume sid (resetGame s') (postMove (Ok (Json r)))) = status_r r"
    unfolding ok resume_after_reset_response by (simp_all split: sum.splits)
  have h3: "tgLink (onCellClick_resume sid (resetGame s') (postMove (Ok (Json r)))) = Some link"
    if "status_r r = win" "buildTelegramLink sid = Inr link"
    unfolding ok resume_after_reset_response using that by simp
  from a b c lose won ill thrown h1 h2 h3 show ?thesis by blast
qed

text \<open>
  The component has made one move (cell 4, the server answered with its own mark on
  cell 8). Then cell 0 is clicked, the game is reset, and the request of that click
  settles: with a \<open>win\<close>, which puts the board of the response and the reward link onto
  the reset game; or with a rejected \<open>fetch\<close>, which leaves the reset game and an error.
\<close>

theorem reset_in_flight_witness:
  "canPlay (app (run
     [Click 4,
      Settle 0 (Ok (Json \<lparr>success = True, status_r = in_progress,
        board_r = [Empty, Empty, Empty, Empty, PlayerX, Empty, Empty, Empty, BotO],
        promoCode = None\<rparr>))]
     (started Map.empty (js ''u1'')))) \<and>
   cell_is_empty (board (app (run
     [Click 4,
      Settle 0 (Ok (Json \<lparr>success = True, status_r = in_progress,
        board_r = [Empty, Empty, Empty, Empty, PlayerX, Empty, Empty, Empty, BotO],
        promoCode = None\<rparr>))]
     (started Map.empty (js ''u1''))))) 0 \<and>
   well_formed_utf16 (js ''s_u1'') \<and>
   postMove (FetchRejected (Thrown (Some (js ''Failed to fetch'')))) =
     Inl (Thrown (Some (js ''Failed to fetch''))) \<and>
   app (run
     [Click 4,
      Settle 0 (Ok (Json \<lparr>success = True, status_r = in_progress,
        board_r = [Empty, Empty, Empty, Empty, PlayerX, Empty, Empty, Empty, BotO],
        promoCode = None\<rparr>)),
      Click 0, Reset,
      Settle 0 (Ok (Json \<lparr>success = True, status_r = win,
        board_r = [PlayerX, Empty, Empty, Empty, PlayerX, Empty, Empty, Empty, BotO],
        promoCode = None\<rparr>))]
     (started Map.empty (js ''u1''))) =
   \<lparr>sessionId = js ''s_u1'',
    board = [PlayerX, Empty, Empty, Empty, PlayerX, Empty, Empty, Empty, BotO],
    status = win, busy = False, error = None,
    tgLink = Some (js ''https://t.me/ttt432_bot?start=s_u1'')\<rparr> \<and>
   app (run
     [Click 4,
      Settle 0 (Ok (Json \<lparr>success = True, status_r = in_progress,
        board_r = [Empty, Empty, Empty, Empty, PlayerX, Empty, Empty, Empty, BotO],
        promoCode = None\<rparr>)),
      Click 0, Reset,
      Settle 0 (FetchRejected (Thrown (Some (js ''Failed to fetch''))))]
     (started Map.empty (js ''u1''))) =
   \<lparr>sessionId = js ''s_u1'', board = EmptyBoard, status = in_progress, busy = False,
    error = Some (js ''Failed to fetch''), tgLink = None\<rparr>"
proof -
  let ?r1 = "\<lparr>success = True, status_r = in_progress,
        board_r = [Empty, Empty, Empty, Empty, PlayerX, Empty, Empty, Empty, BotO],
        promoCode = None\<rparr>"
  let ?rw = "\<lparr>success = True, status_r = win,
        board_r = [PlayerX, Empty, Empty, Empty, PlayerX, Empty, Empty, Empty, BotO],
        promoCode = None\<rparr>"
  let ?net = "FetchRejected (Thrown (Some (js ''Failed to fetch'')))"
  let ?s1 = "\<lparr>sessionId = js ''s_u1'',
      board = [Empty, Empty, Empty, Empty, PlayerX, Empty, Empty, Empty, BotO],
      status = in_progress, busy = False, error = None, tgLink = None\<rparr>"
  let ?\<sigma>1 = "\<lparr>app = ?s1, in_flight = []\<rparr>"
  have sid: "js ''s_'' @ js ''u1'' = js ''s_u1''" by (simp add: js_def)
  have reach: "run [Click 4, Settle 0 (Ok (Json ?r1))] (started Map.empty (js ''u1'')) = ?\<sigma>1"
    by (simp add: run_Cons run_Nil started_def App_mounted_def App_initial_def step.simps(1)
        onCellClick_begin_def canPlay_def cell_is_empty_def EmptyBoard_cells
        postMove_def onCellClick_resume_def remove_nth_def getOrCreateSessionId_def Let_def sid)
  have cp: "canPlay (app ?\<sigma>1)" by (simp add: canPlay_def)
  have ce: "cell_is_empty (board (app ?\<sigma>1)) 0" by (simp add: cell_is_empty_def)
  have wf: "well_formed_utf16 (js ''s_u1'')"
    by (simp add: js_def is_trail_surrogate_def is_lead_surrogate_def)
  have wf': "well_formed_utf16 (sessionId (app ?\<sigma>1))" using wf by simp
  have enc: "encodeURIComponent (js ''s_u1'') = Inr (js ''s_u1'')"
    by (simp add: js_def uriUnescaped_def)
  have pm: "postMove ?net = Inl (Thrown (Some (js ''Failed to fetch'')))"
    by (simp add: postMove_def)
  have m: "catch_message (Thrown (Some (js ''Failed to fetch''))) = js ''Failed to fetch''"
    by (simp add: catch_message_def)
  have lnk: "js ''https://t.me/ttt432_bot?start='' @ js ''s_u1'' =
      js ''https://t.me/ttt432_bot?start=s_u1''"
    by (simp add: js_def)
  note w = reset_in_flight [OF cp ce, of ?rw ?net "Thrown (Some (js ''Failed to fetch''))"]
  from w wf' enc have won: "app (run [Click 0, Reset, Settle 0 (Ok (Json ?rw))] ?\<sigma>1) =
      ?s1\<lparr>board := board_r ?rw, status := win, busy := False, error := None,
        tgLink := Some (js ''https://t.me/ttt432_bot?start='' @ js ''s_u1'')\<rparr>"
    by auto
  from w pm have lost: "app (run [Click 0, Reset, Settle 0 ?net] ?\<sigma>1) =
      ?s1\<lparr>board := EmptyBoard, status := in_progress, busy := False,
        error := Some (catch_message (Thrown (Some (js ''Failed to fetch'')))), tgLink := None\<rparr>"
    by auto
  have "run [Click 4, Settle 0 (Ok (Json ?r1)), Click 0, Reset, Settle 0 (Ok (Json ?rw))]
      (started Map.empty (js ''u1'')) = run [Click 0, Reset, Settle 0 (Ok (Json ?rw))] ?\<sigma>1"
    using run_append [of "[Click 4, Settle 0 (Ok (Json ?r1))]"
        "[Click 0, Reset, Settle 0 (Ok (Json ?rw))]" "started Map.empty (js ''u1'')"]
    by (simp only: reach append_Cons append_Nil)
  with won have 1: "app (run [Click 4, Settle 0 (Ok (Json ?r1)), Click 0, Reset,
      Settle 0 (Ok (Json ?rw))] (started Map.empty (js ''u1''))) =
    \<lparr>sessionId = js ''s_u1'',
     board = [PlayerX, Empty, Empty, Empty, PlayerX, Empty, Empty, Empty, BotO],
     status = win, busy = False, error = None,
     tgLink = Some (js ''https://t.me/ttt432_bot?start=s_u1'')\<rparr>"
    by (simp add: lnk)
  have "run [Click 4, Settle 0 (Ok (Json ?r1)), Click 0, Reset, Settle 0 ?net]
      (started Map.empty (js ''u1'')) = run [Click 0, Reset, Settle 0 ?net] ?\<sigma>1"
    using run_append [of "[Click 4, Settle 0 (Ok (Json ?r1))]"
        "[Click 0, Reset, Settle 0 ?net]" "started Map.empty (js ''u1'')"]
    by (simp only: reach append_Cons append_Nil)
  with lost have 2: "app (run [Click 4, Settle 0 (Ok (Json ?r1)), Click 0, Reset,
      Settle 0 ?net] (started Map.empty (js ''u1''))) =
    \<lparr>sessionId = js ''s_u1'', board = EmptyBoard, status = in_progress, busy = False,
     error = Some (js ''Failed to fetch''), tgLink = None\<rparr>"
    by (simp add: m)
  from cp ce have 3: "canPlay (app (run [Click 4, Settle 0 (Ok (Json ?r1))]
      (started Map.empty (js ''u1''))))"
    and 4: "cell_is_empty (board (app (run [Click 4, Settle 0 (Ok (Json ?r1))]
      (started Map.empty (js ''u1''))))) 0"
    by (simp_all only: reach)
  from 3 4 wf pm 1 2 show ?thesis by (intro conjI)
qed

text \<open>
  C5 as the specification states it fails: after a click on cell 0, a reset and then
  the server's answer to the click, the board is the one of the answer, not the empty
  board that the reset left.
\<close>

theorem late_response_overwrites_reset:
  "board (app (run
     [Click 0, Reset,
      Settle 0 (Ok (Json \<lparr>success = True, status_r = in_progress,
        board_r = [PlayerX, BotO, Empty, Empty, Empty, Empty, Empty, Empty, Empty],
        promoCode = None\<rparr>))]
     (started Map.empty (js ''u1'')))) =
     [PlayerX, BotO, Empty, Empty, Empty, Empty, Empty, Empty, Empty] \<and>
   board (app (run [Click 0, Reset] (started Map.empty (js ''u1'')))) = EmptyBoard \<and>
   [PlayerX, BotO, Empty, Empty, Empty, Empty, Empty, Empty, Empty] \<noteq> EmptyBoard"
  by (simp add: run_Cons run_Nil started_def App_mounted_def App_initial_def step.simps(1)
      onCellClick_begin_def canPlay_def cell_is_empty_def EmptyBoard_cells resetGame_def
      postMove_def onCellClick_resume_def remove_nth_def)

section \<open>The length of the board\<close>

lemma step_board_length:
  "length (board (app \<sigma>)) = 9 \<Longrightarrow> well_sized ev \<Longrightarrow> length (board (app (step \<sigma> ev))) = 9"
proof (cases ev)
  case (Click i)
  assume "length (board (app \<sigma>)) = 9"
  with Click show ?thesis
    by (simp add: step.simps(1) onCellClick_begin_def)
next
  case Reset
  then show ?thesis by (simp add: resetGame_def EmptyBoard_def)
next
  case CloseModal
  assume "length (board (app \<sigma>)) = 9"
  with CloseModal show ?thesis by simp
next
  case (Settle k net)
  assume len: "length (board (app \<sigma>)) = 9" and ws: "well_sized ev"
  show ?thesis
  proof (cases "postMove net")
    case (Inl e)
    with len Settle show ?thesis by (simp add: onCellClick_resume_def)
  next
    case (Inr r)
    then have "net = Ok (Json r)"
      by (auto simp: postMove_def Let_def split: fetch_result.splits json_result.splits)
    with ws Settle have "length (board_r r) = 9" by simp
    with len Settle Inr show ?thesis
      by (simp add: onCellClick_resume_def Let_def split: sum.splits)
  qed
qed

text \<open>
  C8, as amended. Provided every response that is applied carries a board of length 9,
  the board has length 9 after every sequence of clicks, resets, closings of the modal
  and settled requests, from the mounted component on.
\<close>

theorem board_length_invariant:
  "\<forall>ev\<in>set evs. well_sized ev \<Longrightarrow>
   length (board (app (run evs (started localStorage uuid)))) = 9"
proof (induction evs rule: rev_induct)
  case Nil
  show ?case
    by (simp add: run_Nil started_def App_mounted_def App_initial_def EmptyBoard_def)
next
  case (snoc ev evs)
  then show ?case by (simp add: run_snoc step_board_length)
qed

theorem board_length_invariant_witness:
  "list_all well_sized [Click 4,
        Settle 0 (Ok (Json \<lparr>success = True, status_r = win,
          board_r = [Empty, Empty, Empty, Empty, PlayerX, Empty, Empty, Empty, BotO],
          promoCode = None\<rparr>)),
        Reset, Click 0, Settle 0 (NotOk 500 None)] \<and>
   length (board (app (run [Click 4,
        Settle 0 (Ok (Json \<lparr>success = True, status_r = win,
          board_r = [Empty, Empty, Empty, Empty, PlayerX, Empty, Empty, Empty, BotO],
          promoCode = None\<rparr>)),
        Reset, Click 0, Settle 0 (NotOk 500 None)] (started Map.empty (js ''u1''))))) = 9"
proof -
  let ?evs = "[Click 4,
        Settle 0 (Ok (Json \<lparr>success = True, status_r = win,
          board_r = [Empty, Empty, Empty, Empty, PlayerX, Empty, Empty, Empty, BotO],
          promoCode = None\<rparr>)),
        Reset, Click 0, Settle 0 (NotOk 500 None)]"
  have ws: "\<forall>ev\<in>set ?evs. well_sized ev" by simp
  have "length (board (app (run ?evs (started Map.empty (js ''u1''))))) = 9"
    using ws by (rule board_length_invariant)
  moreover have "list_all well_sized ?evs" by simp
  ultimately show ?thesis by (intro conjI)
qed

text \<open>
  C8 as the specification states it fails for a response whose board is not of length
  9: the handler stores it as it is. Here the server answers with the empty array.
\<close>

theorem short_board_applied:
  "length (board (app (run
     [Click 4, Settle 0 (Ok (Json \<lparr>success = True, status_r = in_progress, board_r = [],
        promoCode = None\<rparr>))]
     (started Map.empty (js ''u1''))))) = 0"
  by (simp add: run_Cons run_Nil started_def App_mounted_def App_initial_def step.simps(1)
      onCellClick_begin_def canPlay_def cell_is_empty_def EmptyBoard_cells
      postMove_def onCellClick_resume_def remove_nth_def)

section \<open>No error while a request is in flight\<close>

lemma step_busy_no_error:
  "(busy (app \<sigma>) \<longrightarrow> error (app \<sigma>) = None) \<Longrightarrow>
   busy (app (step \<sigma> ev)) \<longrightarrow> error (app (step \<sigma> ev)) = None"
proof (cases ev)
  case (Click i)
  assume "busy (app \<sigma>) \<longrightarrow> error (app \<sigma>) = None"
  with Click show ?thesis
    by (simp add: step.simps(1) onCellClick_begin_def)
next
  case Reset
  then show ?thesis by (simp add: resetGame_def)
next
  case CloseModal
  assume "busy (app \<sigma>) \<longrightarrow> error (app \<sigma>) = None"
  with CloseModal show ?thesis by simp
next
  case (Settle k net)
  assume "busy (app \<sigma>) \<longrightarrow> error (app \<sigma>) = None"
  with Settle show ?thesis by simp
qed

text \<open>
  C9. An accepted click clears the error and sets the busy flag before the request is
  sent, and after every sequence of events from the mounted component on, a set busy
  flag comes with an empty error.
\<close>

theorem busy_implies_no_error:
  "(canPlay s \<and> cell_is_empty (board s) i \<longrightarrow>
      error (fst (onCellClick_begin s i)) = None \<and> busy (fst (onCellClick_begin s i)) \<and>
      snd (onCellClick_begin s i) \<noteq> []) \<and>
   (busy (app (run evs (started localStorage uuid))) \<longrightarrow>
      error (app (run evs (started localStorage uuid))) = None)"
proof
  show "canPlay s \<and> cell_is_empty (board s) i \<longrightarrow>
      error (fst (onCellClick_begin s i)) = None \<and> busy (fst (onCellClick_begin s i)) \<and>
      snd (onCellClick_begin s i) \<noteq> []"
    by (simp add: onCellClick_begin_def)
  show "busy (app (run evs (started localStorage uuid))) \<longrightarrow>
      error (app (run evs (started localStorage uuid))) = None"
  proof (induction evs rule: rev_induct)
    case Nil
    show ?case by (simp add: run_Nil started_def App_mounted_def App_initial_def)
  next
    case (snoc ev evs)
    then show ?case unfolding run_snoc by (rule step_busy_no_error)
  qed
qed

text \<open>
  A failed move leaves an error; the next accepted click is in flight with the error
  cleared.
\<close>

theorem busy_implies_no_error_witness:
  "canPlay (app (run [Click 0, Settle 0 (NotOk 500 None)] (started Map.empty (js ''u1'')))) \<and>
   cell_is_empty (board (app (run [Click 0, Settle 0 (NotOk 500 None)]
     (started Map.empty (js ''u1''))))) 0 \<and>
   error (app (run [Click 0, Settle 0 (NotOk 500 None)] (started Map.empty (js ''u1'')))) \<noteq> None \<and>
   busy (app (run [Click 0, Settle 0 (NotOk 500 None), Click 0] (started Map.empty (js ''u1'')))) \<and>
   error (app (run [Click 0, Settle 0 (NotOk 500 None), Click 0] (started Map.empty (js ''u1''))))
     = None"
proof -
  let ?\<sigma> = "started Map.empty (js ''u1'')"
  have app2: "app (run [Click 0, Settle 0 (NotOk 500 None)] ?\<sigma>) =
      (app ?\<sigma>)\<lparr>error := Some (js ''HTTP '' @ Number_toString 500)\<rparr>"
    by (simp add: run_Cons run_Nil started_def App_mounted_def App_initial_def step.simps(1)
      onCellClick_begin_def canPlay_def cell_is_empty_def EmptyBoard_cells
      postMove_def onCellClick_resume_def remove_nth_def catch_message_def)
  have a: "canPlay (app (run [Click 0, Settle 0 (NotOk 500 None)] ?\<sigma>))"
    unfolding app2 by (simp add: started_def App_mounted_def App_initial_def canPlay_def)
  have b: "cell_is_empty (board (app (run [Click 0, Settle 0 (NotOk 500 None)] ?\<sigma>))) 0"
    unfolding app2
    by (simp add: started_def App_mounted_def App_initial_def cell_is_empty_def EmptyBoard_def)
  have c: "error (app (run [Click 0, Settle 0 (NotOk 500 None)] ?\<sigma>)) \<noteq> None"
    unfolding app2 by simp
  have d: "busy (app (run [Click 0, Settle 0 (NotOk 500 None), Click 0] ?\<sigma>))"
    using a b run_snoc [of "[Click 0, Settle 0 (NotOk 500 None)]" "Click 0" ?\<sigma>]
    by (simp add: step_Click_accepted)
  from busy_implies_no_error
    [of "app (run [Click 0, Settle 0 (NotOk 500 None)] ?\<sigma>)" 0
        "[Click 0, Settle 0 (NotOk 500 None), Click 0]" Map.empty "js ''u1''"] d
  have "error (app (run [Click 0, Settle 0 (NotOk 500 None), Click 0] ?\<sigma>)) = None"
    by blast
  with a b c d show ?thesis by (intro conjI)
qed


end
